theory Spec2Isabelle
  imports Main "HOL-Library.Word" "HOL-Library.Finite_Map"
begin

section \<open>DataPak: container format, codec, builder, reader and virtual file system\<close>

text \<open>
  A shallow embedding of the DataPak sources (\<^verbatim>\<open>include/datapak/*.hpp\<close>, \<^verbatim>\<open>src/*.cpp\<close>).
  Conventions used throughout:
  \<^item> a byte is an \<open>8 word\<close>, a \<^verbatim>\<open>std::vector<std::byte>\<close> a list of bytes, a
    \<^verbatim>\<open>std::string\<close> a \<open>string\<close>; fixed-width integers are words and wrap around;
  \<^item> a \<^verbatim>\<open>std::expected<T, E>\<close> is the sum \<open>E + T\<close> (\<open>Inl\<close> the error);
  \<^item> a \<^verbatim>\<open>std::unordered_map\<close> is a finite map (\<open>fmap\<close>);
  \<^item> member functions that mutate their object return the updated object; a data
    member \<^verbatim>\<open>name_\<close> is the record field \<open>name\<close>;
  \<^item> a function whose C++ body may fail to return normally has an \<open>option\<close> result,
    and \<open>None\<close> stands for "no normal return": a zlib loop that never ends, an
    exception that leaves the API (\<^verbatim>\<open>std::length_error\<close>, \<^verbatim>\<open>std::bad_alloc\<close>), or
    undefined behaviour (a \<^verbatim>\<open>memcpy\<close> outside the buffer); where the state the
    exception leaves behind matters, or a caller catches it, the exception is a value
    of type \<open>exception\<close> instead;
  \<^item> what the sources take from their environment and do not define themselves
    (zlib, the heap, the file system, the host's byte order) is a parameter of the
    model.
\<close>

subsection \<open>format.hpp\<close>

type_synonym byte = "8 word"
type_synonym bytes = "byte list"

definition MAGIC_NUMBER :: "32 word" where
  "MAGIC_NUMBER = 0x50414B46"

definition FORMAT_VERSION :: "32 word" where
  "FORMAT_VERSION = 1"

text \<open>
  \<^verbatim>\<open>enum class compression_method : std::uint8_t\<close>. The reader fills the field from
  one raw byte of the file, so every 8-bit value can occur; the three enumerators are
  the named values.
\<close>

type_synonym compression_method = "8 word"

definition none :: compression_method where
  "none = 0"

definition deflate :: compression_method where
  "deflate = 1"

definition zstd :: compression_method where
  "zstd = 2"

record archive_header =
  magic :: "32 word"
  version :: "32 word"
  directory_offset :: "64 word"
  directory_count :: "32 word"
  reserved :: "32 word"

record directory_entry =
  filename :: string
  data_offset :: "64 word"
  compressed_size :: "64 word"
  uncompressed_size :: "64 word"
  compression :: compression_method

subsection \<open>Object representation of integers\<close>

text \<open>
  The builder writes and the reader reads integers through
  \<^verbatim>\<open>reinterpret_cast<char*>(&x)\<close> and \<^verbatim>\<open>memcpy\<close>, that is, in the byte order of the
  host. The host's byte order is a parameter.
\<close>

datatype byte_order = little_endian | big_endian

fun encode_le :: "nat \<Rightarrow> nat \<Rightarrow> bytes" where
  "encode_le 0 v = []"
| "encode_le (Suc n) v = of_nat (v mod 256) # encode_le n (v div 256)"

fun decode_le :: "bytes \<Rightarrow> nat" where
  "decode_le [] = 0"
| "decode_le (b # bs) = unat b + 256 * decode_le bs"

definition object_bytes :: "byte_order \<Rightarrow> nat \<Rightarrow> nat \<Rightarrow> bytes" where
  "object_bytes bo n v = (case bo of little_endian \<Rightarrow> encode_le n v | big_endian \<Rightarrow> rev (encode_le n v))"

definition object_value :: "byte_order \<Rightarrow> bytes \<Rightarrow> nat" where
  "object_value bo bs = (case bo of little_endian \<Rightarrow> decode_le bs | big_endian \<Rightarrow> decode_le (rev bs))"

definition u32_bytes :: "byte_order \<Rightarrow> 32 word \<Rightarrow> bytes" where
  "u32_bytes bo w = object_bytes bo 4 (unat w)"

definition u64_bytes :: "byte_order \<Rightarrow> 64 word \<Rightarrow> bytes" where
  "u64_bytes bo w = object_bytes bo 8 (unat w)"

definition u32_of :: "byte_order \<Rightarrow> bytes \<Rightarrow> 32 word" where
  "u32_of bo bs = of_nat (object_value bo bs)"

definition u64_of :: "byte_order \<Rightarrow> bytes \<Rightarrow> 64 word" where
  "u64_of bo bs = of_nat (object_value bo bs)"

text \<open>A \<^verbatim>\<open>char\<close> of a \<^verbatim>\<open>std::string\<close> and the byte that stores it.\<close>

definition byte_of_char :: "char \<Rightarrow> byte" where
  "byte_of_char c = of_nat (of_char c)"

definition char_of_byte :: "byte \<Rightarrow> char" where
  "char_of_byte b = char_of (unat b)"

subsection \<open>zlib (external library, a parameter)\<close>

text \<open>
  \<^verbatim>\<open>compression.cpp\<close> drives zlib through a \<^verbatim>\<open>z_stream\<close>. zlib is not part of the
  repository: its four entry points are the fields of a record the model is
  parameterised by. \<open>'z\<close> is zlib's internal state. A call of \<^verbatim>\<open>deflate\<close> or
  \<^verbatim>\<open>inflate\<close> sees the \<^verbatim>\<open>avail_in\<close> bytes at \<^verbatim>\<open>next_in\<close> and room for \<^verbatim>\<open>avail_out\<close>
  bytes; it answers with its return code, how many input bytes it consumed, the bytes
  it produced and its new state.
\<close>

record 'z zlib =
  z_deflateInit :: "int \<Rightarrow> int \<times> 'z"
  z_deflate :: "'z \<Rightarrow> bytes \<Rightarrow> nat \<Rightarrow> int \<Rightarrow> int \<times> nat \<times> bytes \<times> 'z"
  z_inflateInit :: "int \<times> 'z"
  z_inflate :: "'z \<Rightarrow> bytes \<Rightarrow> nat \<Rightarrow> int \<Rightarrow> int \<times> nat \<times> bytes \<times> 'z"

text \<open>The constants of \<^verbatim>\<open>zlib.h\<close> the sources name.\<close>

definition Z_OK :: int where "Z_OK = 0"
definition Z_STREAM_END :: int where "Z_STREAM_END = 1"
definition Z_STREAM_ERROR :: int where "Z_STREAM_ERROR = - 2"
definition Z_DATA_ERROR :: int where "Z_DATA_ERROR = - 3"
definition Z_MEM_ERROR :: int where "Z_MEM_ERROR = - 4"
definition Z_NO_FLUSH :: int where "Z_NO_FLUSH = 0"
definition Z_FINISH :: int where "Z_FINISH = 4"
definition Z_DEFAULT_COMPRESSION :: int where "Z_DEFAULT_COMPRESSION = - 1"

text \<open>
  \<^verbatim>\<open>z_stream\<close>: \<open>next_in\<close> is the caller's buffer from \<^verbatim>\<open>next_in\<close> on; \<open>avail_in\<close>
  and \<open>avail_out\<close> are zlib's \<^verbatim>\<open>uInt\<close> (\<^verbatim>\<open>unsigned int\<close>, 32 bits).
\<close>

record 'z z_stream =
  next_in :: bytes
  avail_in :: "32 word"
  avail_out :: "32 word"
  state :: 'z

text \<open>
  One call through the stream: zlib reads at most \<open>avail_in\<close> bytes, writes at most
  \<open>avail_out\<close> bytes, and the counters and \<open>next_in\<close> move accordingly.
\<close>

definition z_call ::
  "('z \<Rightarrow> bytes \<Rightarrow> nat \<Rightarrow> int \<Rightarrow> int \<times> nat \<times> bytes \<times> 'z) \<Rightarrow> 'z z_stream \<Rightarrow> int
    \<Rightarrow> int \<times> bytes \<times> 'z z_stream" where
  "z_call f strm flush =
    (case f (state strm) (take (unat (avail_in strm)) (next_in strm)) (unat (avail_out strm)) flush of
      (ret, consumed, produced, s') \<Rightarrow>
        let n = min consumed (unat (avail_in strm));
            out = take (unat (avail_out strm)) produced
        in (ret, out,
            strm\<lparr>next_in := drop n (next_in strm),
                 avail_in := avail_in strm - of_nat n,
                 avail_out := avail_out strm - of_nat (length out),
                 state := s'\<rparr>))"

subsection \<open>Exceptions and the heap (environment, a parameter)\<close>

text \<open>The exceptions of the standard library that the sources raise or let through.\<close>

datatype exception = runtime_error | length_error | bad_alloc | filesystem_error

text \<open>
  \<open>H n\<close> says whether the allocator serves a block of \<open>n\<close> bytes. The model consults
  the heap where the sources size a byte vector by a number that comes from a file: a
  64-bit size field of a directory entry, or the end position of a file stream. Such a
  number can be anything below \<open>2 ^ 64\<close>, whatever the file holds. Buffers that hold or
  copy data already in memory, file names (at most 4095 characters) and the directory
  map are taken to be served.

  \<open>vector_alloc H n\<close> is the exception that \<^verbatim>\<open>std::vector<std::byte> v(n)\<close>,
  \<^verbatim>\<open>v.resize(n)\<close> or \<^verbatim>\<open>v.reserve(n)\<close> on an empty vector raises, if any:
  \<^verbatim>\<open>std::length_error\<close> above \<^verbatim>\<open>max_size()\<close>, which is \<open>2 ^ 63 - 1\<close>, and
  \<^verbatim>\<open>std::bad_alloc\<close> when the heap does not serve the block. Nothing is allocated for
  \<open>n = 0\<close>.
\<close>

type_synonym heap = "nat \<Rightarrow> bool"

definition vector_alloc :: "heap \<Rightarrow> nat \<Rightarrow> exception option" where
  "vector_alloc H n =
    (if 2 ^ 63 - 1 < n then Some length_error
     else if 0 < n \<and> \<not> H n then Some bad_alloc
     else None)"

definition zero_bytes :: "nat \<Rightarrow> bytes" where
  "zero_bytes n = replicate n 0"

text \<open>A \<^verbatim>\<open>std::streampos\<close> or \<^verbatim>\<open>std::streamoff\<close> converted to \<^verbatim>\<open>std::size_t\<close>.\<close>

definition size_t_of :: "int \<Rightarrow> nat" where
  "size_t_of i = nat (i mod 2 ^ 64)"

subsection \<open>compression.hpp, compression.cpp\<close>

datatype compression_error =
  invalid_method | compression_failed | decompression_failed | buffer_too_small

definition chunk_size :: "32 word" where
  "chunk_size = 16384"

text \<open>
  The \<^verbatim>\<open>do { ... } while (stream.avail_out == 0)\<close> loop of \<^verbatim>\<open>deflate_compress\<close>.
  \<open>out\<close> is \<^verbatim>\<open>buffer[0 .. chunk_size - avail_out)\<close>.
\<close>

partial_function (option) deflate_loop ::
  "'z zlib \<Rightarrow> 'z z_stream \<Rightarrow> bytes \<Rightarrow> (compression_error + bytes) option" where
  "deflate_loop Z strm compressed =
    (case z_call (z_deflate Z) (strm\<lparr>avail_out := chunk_size\<rparr>) Z_FINISH of
      (result, out, strm') \<Rightarrow>
        if result = Z_STREAM_ERROR then Some (Inl compression_failed)
        else if avail_out strm' = 0 then deflate_loop Z strm' (compressed @ out)
        else if result \<noteq> Z_STREAM_END then Some (Inl compression_failed)
        else Some (Inr (compressed @ out)))"

definition deflate_compress :: "'z zlib \<Rightarrow> bytes \<Rightarrow> (compression_error + bytes) option" where
  "deflate_compress Z data =
    (case z_deflateInit Z Z_DEFAULT_COMPRESSION of
      (rc, s0) \<Rightarrow>
        if rc \<noteq> Z_OK then Some (Inl compression_failed)
        else deflate_loop Z
               \<lparr>next_in = data, avail_in = of_nat (length data), avail_out = 0, state = s0\<rparr> [])"

text \<open>
  The \<^verbatim>\<open>do { ... } while (stream.avail_out == 0 && result != Z_STREAM_END)\<close> loop of
  \<^verbatim>\<open>deflate_decompress\<close>, with the check that follows it.
\<close>

partial_function (option) inflate_loop ::
  "'z zlib \<Rightarrow> 'z z_stream \<Rightarrow> bytes \<Rightarrow> (compression_error + bytes) option" where
  "inflate_loop Z strm decompressed =
    (case z_call (z_inflate Z) (strm\<lparr>avail_out := chunk_size\<rparr>) Z_NO_FLUSH of
      (result, out, strm') \<Rightarrow>
        if result = Z_STREAM_ERROR \<or> result = Z_DATA_ERROR \<or> result = Z_MEM_ERROR
        then Some (Inl decompression_failed)
        else if avail_out strm' = 0 \<and> result \<noteq> Z_STREAM_END
        then inflate_loop Z strm' (decompressed @ out)
        else if result \<noteq> Z_STREAM_END \<and> 0 < avail_in strm'
        then Some (Inl decompression_failed)
        else Some (Inr (decompressed @ out)))"

text \<open>
  \<open>uncompressed_size\<close> only sizes \<^verbatim>\<open>decompressed.reserve(uncompressed_size)\<close>, which
  comes after \<^verbatim>\<open>inflateInit\<close>; the caller takes it from a directory entry, and an
  exception of the \<^verbatim>\<open>reserve\<close> leaves the function.
\<close>

definition deflate_decompress ::
  "heap \<Rightarrow> 'z zlib \<Rightarrow> bytes \<Rightarrow> nat \<Rightarrow> (compression_error + bytes) option" where
  "deflate_decompress H Z compressed_data uncompressed_size' =
    (case z_inflateInit Z of
      (rc, s0) \<Rightarrow>
        if rc \<noteq> Z_OK then Some (Inl decompression_failed)
        else (case vector_alloc H uncompressed_size' of
                Some ex \<Rightarrow> None
              | None \<Rightarrow>
                  inflate_loop Z
                    \<lparr>next_in = compressed_data, avail_in = of_nat (length compressed_data),
                     avail_out = 0, state = s0\<rparr> []))"

declare deflate_loop.simps [code] inflate_loop.simps [code]

definition compress :: "'z zlib \<Rightarrow> bytes \<Rightarrow> compression_method \<Rightarrow> (compression_error + bytes) option" where
  "compress Z data method =
    (if method = none then Some (Inr data)
     else if method = deflate then deflate_compress Z data
     else Some (Inl invalid_method))"

definition decompress ::
  "heap \<Rightarrow> 'z zlib \<Rightarrow> bytes \<Rightarrow> compression_method \<Rightarrow> nat \<Rightarrow> (compression_error + bytes) option" where
  "decompress H Z compressed_data method uncompressed_size' =
    (if method = none then Some (Inr compressed_data)
     else if method = deflate then deflate_decompress H Z compressed_data uncompressed_size'
     else Some (Inl invalid_method))"

subsection \<open>The file system (environment, a parameter)\<close>

text \<open>
  What \<^verbatim>\<open>std::filesystem\<close> and the file streams answer about the files on disk.
  \<^item> \<open>fs_type p\<close> is the kind of file \<open>p\<close> names (symbolic links followed), and
    \<open>ft_not_found\<close> when it names none. \<open>fs_status_fails p\<close> says that the status query
    for \<open>p\<close> fails with an error other than "not found" (a name longer than the system
    allows, a directory on the way that may not be searched, a loop of links): the
    overloads of \<^verbatim>\<open>std::filesystem::exists\<close> and \<^verbatim>\<open>is_directory\<close> that take no
    \<^verbatim>\<open>std::error_code\<close> then throw \<^verbatim>\<open>std::filesystem::filesystem_error\<close>.
  \<^item> \<open>fs_walk d\<close> is what the loop over a \<^verbatim>\<open>recursive_directory_iterator\<close> on \<open>d\<close>
    gets: the items in the iterator's order, each with \<^verbatim>\<open>is_regular_file()\<close> and with
    \<^verbatim>\<open>std::filesystem::relative(entry.path(), d).string()\<close>, and whether the iteration
    ends with a \<^verbatim>\<open>filesystem_error\<close> after these items instead of reaching the end.
  \<^item> \<open>fs_open p\<close> is \<open>None\<close> when \<open>p\<close> cannot be opened for reading. Otherwise it
    is the position \<^verbatim>\<open>tellg()\<close> reports after \<^verbatim>\<open>seekg(0, std::ios::end)\<close> (\<open>- 1\<close> when
    that fails) and the bytes the stream delivers. For a regular file these are its
    size and its content (\<open>regular_file\<close>); a directory can be opened, but delivers
    no bytes, and its end position is whatever the file system answers.
  \<^item> \<open>fs_can_create p\<close> says whether \<open>p\<close> can be opened for writing, and \<open>fs_space\<close>
    is the size up to which the device lets an output file grow.
\<close>

type_synonym path = string

datatype file_type = ft_not_found | ft_regular | ft_directory | ft_other

record walk_entry =
  entry_path :: path
  is_regular_file :: bool
  relative_path :: string

record filesystem =
  fs_type :: "path \<Rightarrow> file_type"
  fs_status_fails :: "path \<Rightarrow> bool"
  fs_walk :: "path \<Rightarrow> walk_entry list \<times> bool"
  fs_open :: "path \<Rightarrow> (int \<times> bytes) option"
  fs_can_create :: "path \<Rightarrow> bool"
  fs_space :: nat

definition regular_file :: "bytes \<Rightarrow> int \<times> bytes" where
  "regular_file c = (int (length c), c)"

text \<open>
  \<^verbatim>\<open>std::filesystem::exists(p)\<close> and \<^verbatim>\<open>std::filesystem::is_directory(p)\<close>: \<open>None\<close>
  is the \<^verbatim>\<open>filesystem_error\<close> they throw.
\<close>

definition fs_exists :: "filesystem \<Rightarrow> path \<Rightarrow> bool option" where
  "fs_exists fs p = (if fs_status_fails fs p then None else Some (fs_type fs p \<noteq> ft_not_found))"

definition fs_is_directory :: "filesystem \<Rightarrow> path \<Rightarrow> bool option" where
  "fs_is_directory fs p = (if fs_status_fails fs p then None else Some (fs_type fs p = ft_directory))"

subsection \<open>archive_builder.hpp, archive_builder.cpp: collecting entries\<close>

datatype builder_error =
  builder_file_not_found | write_error | builder_compression_error | invalid_path

record file_entry =
  source_path :: path
  archive_path :: string
  file_compression :: compression_method

record archive_builder =
  files :: "file_entry list"
  default_compression :: compression_method

definition archive_builder_ctor :: "compression_method \<Rightarrow> archive_builder" where
  "archive_builder_ctor c = \<lparr>files = [], default_compression = c\<rparr>"

definition set_default_compression :: "archive_builder \<Rightarrow> compression_method \<Rightarrow> archive_builder" where
  "set_default_compression b c = b\<lparr>default_compression := c\<rparr>"

definition file_count :: "archive_builder \<Rightarrow> nat" where
  "file_count b = length (files b)"

definition add_file :: "archive_builder \<Rightarrow> path \<Rightarrow> string \<Rightarrow> compression_method \<Rightarrow> archive_builder" where
  "add_file b src apath c =
    (let c' = (if c = none then default_compression b else c)
     in b\<lparr>files := files b @ [\<lparr>source_path = src, archive_path = apath, file_compression = c'\<rparr>]\<rparr>)"

text \<open>The archive path of one walked file: prefix, a \<^verbatim>\<open>'/'\<close> if needed, the relative
  path, and every backslash turned into a slash.\<close>

definition walked_archive_path :: "string \<Rightarrow> string \<Rightarrow> string" where
  "walked_archive_path archive_prefix rel =
    (let p = (if archive_prefix \<noteq> [] \<and> last archive_prefix \<noteq> CHR ''/''
              then archive_prefix @ ''/'' else archive_prefix)
     in map (\<lambda>ch. if ch = CHR 0x5C then CHR ''/'' else ch) (p @ rel))"

fun add_directory_loop ::
  "walk_entry list \<Rightarrow> string \<Rightarrow> compression_method \<Rightarrow> archive_builder \<Rightarrow> archive_builder" where
  "add_directory_loop [] archive_prefix c b = b"
| "add_directory_loop (e # es) archive_prefix c b =
    (if is_regular_file e
     then add_directory_loop es archive_prefix c
            (add_file b (entry_path e) (walked_archive_path archive_prefix (relative_path e)) c)
     else add_directory_loop es archive_prefix c b)"

text \<open>
  \<open>add_directory\<close> returns \<^verbatim>\<open>void\<close> and catches nothing: the result is \<open>Inr ()\<close> when
  it returns and \<open>Inl\<close> the exception that leaves it, with the builder as the call
  leaves it in either case. The entries the walk delivered before an exception have
  been added by then.
\<close>

definition add_directory ::
  "filesystem \<Rightarrow> archive_builder \<Rightarrow> path \<Rightarrow> string \<Rightarrow> compression_method
    \<Rightarrow> (exception + unit) \<times> archive_builder" where
  "add_directory fs b directory_path archive_prefix c =
    (case fs_exists fs directory_path of
      None \<Rightarrow> (Inl filesystem_error, b)
    | Some ex \<Rightarrow>
        if \<not> ex then (Inr (), b)
        else (case fs_is_directory fs directory_path of
                None \<Rightarrow> (Inl filesystem_error, b)
              | Some isdir \<Rightarrow>
                  if \<not> isdir then (Inr (), b)
                  else let c' = (if c = none then default_compression b else c);
                           (entries, thrown) = fs_walk fs directory_path
                       in (if thrown then Inl filesystem_error else Inr (),
                           add_directory_loop entries archive_prefix c' b)))"

subsection \<open>archive_builder.cpp: writing the container\<close>

text \<open>
  The \<^verbatim>\<open>std::ofstream\<close> of \<open>build\<close>: what has been written, the put position and
  the failure flag. A write that would grow the file past the device's space, or past
  the largest file offset (\<^verbatim>\<open>std::streamoff\<close> is a signed 64-bit integer), fails and
  writes nothing; a failed stream ignores every later operation. The put position
  never passes the end of the content (the only seek is to 0).
\<close>

record ofstream =
  of_content :: bytes
  of_pos :: nat
  of_fail :: bool

definition ofstream_open :: "filesystem \<Rightarrow> path \<Rightarrow> ofstream" where
  "ofstream_open fs p = \<lparr>of_content = [], of_pos = 0, of_fail = \<not> fs_can_create fs p\<rparr>"

definition ofstream_write :: "filesystem \<Rightarrow> ofstream \<Rightarrow> bytes \<Rightarrow> ofstream" where
  "ofstream_write fs out bs =
    (if of_fail out then out
     else if min (fs_space fs) (2 ^ 63 - 1) < of_pos out + length bs then out\<lparr>of_fail := True\<rparr>
     else out\<lparr>of_content := take (of_pos out) (of_content out) @ bs
                                @ drop (of_pos out + length bs) (of_content out),
              of_pos := of_pos out + length bs\<rparr>)"

definition ofstream_seekp :: "ofstream \<Rightarrow> nat \<Rightarrow> ofstream" where
  "ofstream_seekp out p = (if of_fail out then out else out\<lparr>of_pos := p\<rparr>)"

definition ofstream_tellp :: "ofstream \<Rightarrow> int" where
  "ofstream_tellp out = (if of_fail out then - 1 else int (of_pos out))"

text \<open>The 24 bytes of an \<^verbatim>\<open>archive_header\<close> object (no padding between its fields).\<close>

definition header_bytes :: "byte_order \<Rightarrow> archive_header \<Rightarrow> bytes" where
  "header_bytes bo h =
    u32_bytes bo (magic h) @ u32_bytes bo (version h) @ u64_bytes bo (directory_offset h)
      @ u32_bytes bo (directory_count h) @ u32_bytes bo (reserved h)"

text \<open>
  Reading one source file, the first part of the body of the loop over \<^verbatim>\<open>files_\<close>:
  open the file, take the end position as \<^verbatim>\<open>file_size\<close>, make a vector of that many
  bytes and read that many bytes into it. A file that does not open, and a read that
  delivers fewer bytes, give \<^verbatim>\<open>file_not_found\<close>; an exception of the vector's
  constructor leaves \<open>build\<close>. (For a directory that opens, the end position is
  \<open>- 1\<close> or a number the heap does not serve on the usual systems.)
\<close>

definition read_source :: "heap \<Rightarrow> filesystem \<Rightarrow> path \<Rightarrow> (builder_error + bytes) option" where
  "read_source H fs p =
    (case fs_open fs p of
      None \<Rightarrow> Some (Inl builder_file_not_found)
    | Some (file_size, content) \<Rightarrow>
        let n = size_t_of file_size in
        (case vector_alloc H n of
          Some ex \<Rightarrow> None
        | None \<Rightarrow>
            if length content < n then Some (Inl builder_file_not_found)
            else Some (Inr (take n content))))"

text \<open>
  The loop over \<^verbatim>\<open>files_\<close>. In the branch without compression the source does
  \<^verbatim>\<open>compressed_data = std::move(data)\<close> and reads \<^verbatim>\<open>data.size()\<close> afterwards: the
  moved-from vector is empty, so the recorded \<open>uncompressed_size\<close> is 0 there.
\<close>

fun write_files ::
  "heap \<Rightarrow> 'z zlib \<Rightarrow> filesystem \<Rightarrow> file_entry list \<Rightarrow> ofstream \<Rightarrow> directory_entry list \<Rightarrow> 64 word
    \<Rightarrow> ((builder_error + directory_entry list \<times> 64 word) \<times> ofstream) option" where
  "write_files H Z fs [] out dir current_offset = Some (Inr (dir, current_offset), out)"
| "write_files H Z fs (file # rest) out dir current_offset =
    (case read_source H fs (source_path file) of
      None \<Rightarrow> None
    | Some (Inl e) \<Rightarrow> Some (Inl e, out)
    | Some (Inr data) \<Rightarrow>
        (case (if file_compression file \<noteq> none
               then map_option (map_sum id (\<lambda>c. (c, data))) (compress Z data (file_compression file))
               else Some (Inr (data, []))) of
          None \<Rightarrow> None
        | Some (Inl e) \<Rightarrow> Some (Inl builder_compression_error, out)
        | Some (Inr (compressed_data, data')) \<Rightarrow>
            let out' = ofstream_write fs out compressed_data in
            if of_fail out' then Some (Inl write_error, out')
            else write_files H Z fs rest out'
                   (dir @ [\<lparr>filename = archive_path file,
                            data_offset = current_offset,
                            compressed_size = of_nat (length compressed_data),
                            uncompressed_size = of_nat (length data'),
                            compression = file_compression file\<rparr>])
                   (current_offset + of_nat (length compressed_data))))"

definition entry_bytes :: "byte_order \<Rightarrow> directory_entry \<Rightarrow> bytes list" where
  "entry_bytes bo e =
    [u32_bytes bo (of_nat (length (filename e))),
     map byte_of_char (filename e),
     u64_bytes bo (data_offset e),
     u64_bytes bo (compressed_size e),
     u64_bytes bo (uncompressed_size e),
     [compression e]]"

fun write_directory ::
  "byte_order \<Rightarrow> filesystem \<Rightarrow> directory_entry list \<Rightarrow> ofstream \<Rightarrow> (builder_error + unit) \<times> ofstream" where
  "write_directory bo fs [] out = (Inr (), out)"
| "write_directory bo fs (e # es) out =
    (let out' = fold (\<lambda>bs o'. ofstream_write fs o' bs) (entry_bytes bo e) out in
     if of_fail out' then (Inl write_error, out') else write_directory bo fs es out')"

text \<open>
  \<open>build\<close> returns what the C++ function returns together with the output file as it
  stands; on success the header and the directory it has written are returned too (they
  are local variables of the C++ function, kept for stating properties).
\<close>

definition build ::
  "byte_order \<Rightarrow> heap \<Rightarrow> 'z zlib \<Rightarrow> filesystem \<Rightarrow> archive_builder \<Rightarrow> path
    \<Rightarrow> ((builder_error + archive_header \<times> directory_entry list) \<times> ofstream) option" where
  "build bo H Z fs b output_path =
    (let output = ofstream_open fs output_path in
     if of_fail output then Some (Inl write_error, output)
     else
       let header = \<lparr>magic = MAGIC_NUMBER, version = FORMAT_VERSION, directory_offset = 0,
                     directory_count = of_nat (length (files b)), reserved = 0\<rparr>;
           output = ofstream_write fs output (header_bytes bo header)
       in if of_fail output then Some (Inl write_error, output)
          else
            (case write_files H Z fs (files b) output [] 24 of
              None \<Rightarrow> None
            | Some (Inl e, output) \<Rightarrow> Some (Inl e, output)
            | Some (Inr (dir, current_offset), output) \<Rightarrow>
                let header = header\<lparr>directory_offset := of_int (ofstream_tellp output)\<rparr> in
                (case write_directory bo fs dir output of
                  (Inl e, output) \<Rightarrow> Some (Inl e, output)
                | (Inr u, output) \<Rightarrow>
                    let output = ofstream_write fs (ofstream_seekp output 0) (header_bytes bo header)
                    in if of_fail output then Some (Inl write_error, output)
                       else Some (Inr (header, dir), output))))"

subsection \<open>vfstream.hpp, vfstream.cpp\<close>

text \<open>
  A \<open>vfstream\<close> is a \<^verbatim>\<open>std::istream\<close> over a \<open>vfstreambuf\<close>: the owned bytes, the get
  position \<^verbatim>\<open>gptr() - eback()\<close>, and the stream's failure flag (\<^verbatim>\<open>read\<close> sets
  \<^verbatim>\<open>eofbit\<close> only together with \<^verbatim>\<open>failbit\<close>, so one flag is kept).
\<close>

record vfstream =
  data :: bytes
  gptr :: int
  vf_fail :: bool

definition vfstream_ctor :: "bytes \<Rightarrow> vfstream" where
  "vfstream_ctor d = \<lparr>data = d, gptr = 0, vf_fail = False\<rparr>"

datatype seekdir = seek_beg | seek_cur | seek_end

definition seekoff :: "vfstream \<Rightarrow> int \<Rightarrow> seekdir \<Rightarrow> int \<times> vfstream" where
  "seekoff s off way =
    (let new_pos = (case way of seek_beg \<Rightarrow> off
                    | seek_cur \<Rightarrow> gptr s + off
                    | seek_end \<Rightarrow> int (length (data s)) + off)
     in if new_pos < 0 \<or> int (length (data s)) < new_pos then (- 1, s)
        else (new_pos, s\<lparr>gptr := new_pos\<rparr>))"

text \<open>
  \<open>xsgetn\<close>: \<^verbatim>\<open>gbump\<close> takes an \<^verbatim>\<open>int\<close>, so the position moves by the count cast to
  32 bits. Copying from a position outside the buffer is undefined.
\<close>

definition xsgetn :: "vfstream \<Rightarrow> int \<Rightarrow> (bytes \<times> int \<times> vfstream) option" where
  "xsgetn s count =
    (let available = int (length (data s)) - gptr s;
         to_read = min count available
     in if 0 < to_read
        then (if gptr s < 0 then None
              else Some (take (nat to_read) (drop (nat (gptr s)) (data s)), to_read,
                         s\<lparr>gptr := gptr s + sint (word_of_int to_read :: 32 word)\<rparr>))
        else Some ([], to_read, s))"

text \<open>The \<^verbatim>\<open>std::istream\<close> members \<open>vfs::open\<close> calls.\<close>

definition seekg :: "vfstream \<Rightarrow> int \<Rightarrow> seekdir \<Rightarrow> vfstream" where
  "seekg s off way =
    (if vf_fail s then s
     else case seekoff s off way of (r, s') \<Rightarrow> if r = - 1 then s'\<lparr>vf_fail := True\<rparr> else s')"

definition tellg :: "vfstream \<Rightarrow> int" where
  "tellg s = (if vf_fail s then - 1 else fst (seekoff s 0 seek_cur))"

definition vfstream_read :: "vfstream \<Rightarrow> int \<Rightarrow> (bytes \<times> vfstream) option" where
  "vfstream_read s n =
    (if vf_fail s then Some ([], s)
     else case xsgetn s n of
       None \<Rightarrow> None
     | Some (got, k, s') \<Rightarrow> Some (got, if k \<noteq> n then s'\<lparr>vf_fail := True\<rparr> else s'))"

subsection \<open>archive.hpp, archive.cpp\<close>

datatype archive_error =
  file_not_found | invalid_format | read_error | compression_error | entry_not_found

datatype access_mode = disk | memory

text \<open>
  The \<^verbatim>\<open>std::ifstream\<close> of a disk-mode archive: whether it is open, the file's bytes, the
  get position and the failure flag. Nothing in the sources clears the flag, and a
  failed stream ignores every later seek and read.
\<close>

record ifstream =
  if_open :: bool
  if_content :: bytes
  if_pos :: nat
  if_fail :: bool

definition ifstream_closed :: ifstream where
  "ifstream_closed = \<lparr>if_open = False, if_content = [], if_pos = 0, if_fail = False\<rparr>"

definition ifstream_open :: "filesystem \<Rightarrow> path \<Rightarrow> ifstream" where
  "ifstream_open fs p =
    (case fs_open fs p of
      None \<Rightarrow> ifstream_closed\<lparr>if_fail := True\<rparr>
    | Some (end_pos, c) \<Rightarrow> \<lparr>if_open = True, if_content = c, if_pos = 0, if_fail = False\<rparr>)"

text \<open>\<open>seekg(pos)\<close> with \<open>pos\<close> a \<^verbatim>\<open>std::uint64_t\<close>: the offset is a signed 64-bit
  \<^verbatim>\<open>streamoff\<close>, and a negative one is refused. Seeking past the end is allowed.\<close>

definition ifstream_seekg :: "ifstream \<Rightarrow> 64 word \<Rightarrow> ifstream" where
  "ifstream_seekg s pos =
    (if if_fail s then s
     else if \<not> if_open s \<or> sint pos < 0 then s\<lparr>if_fail := True\<rparr>
     else s\<lparr>if_pos := unat pos\<rparr>)"

text \<open>
  \<open>read(buf, n)\<close>: \<open>old\<close> is what the \<open>n\<close> bytes of the buffer held before. The
  result is the buffer afterwards, \<^verbatim>\<open>gcount()\<close> and the stream. A short read keeps the
  rest of the buffer and sets the failure flag.
\<close>

definition ifstream_read :: "ifstream \<Rightarrow> nat \<Rightarrow> bytes \<Rightarrow> bytes \<times> nat \<times> ifstream" where
  "ifstream_read s n old =
    (if if_fail s then (old, 0, s)
     else let k = min n (length (if_content s) - if_pos s);
              got = take k (drop (if_pos s) (if_content s))
          in (got @ drop k old, k, s\<lparr>if_pos := if_pos s + k, if_fail := (k \<noteq> n)\<rparr>))"

record archive =
  file_path :: path
  mode :: access_mode
  file_stream :: ifstream
  memory_data :: bytes
  directory :: "(string, directory_entry) fmap"

text \<open>\<^verbatim>\<open>memcpy(dst, memory_data_.data() + pos, n)\<close>: defined only inside the buffer.\<close>

definition mem_read :: "bytes \<Rightarrow> 64 word \<Rightarrow> nat \<Rightarrow> bytes option" where
  "mem_read mem pos n =
    (if unat pos + n \<le> length mem then Some (take n (drop (unat pos) mem)) else None)"

definition header_of :: "byte_order \<Rightarrow> bytes \<Rightarrow> archive_header" where
  "header_of bo bs =
    \<lparr>magic = u32_of bo (take 4 bs),
     version = u32_of bo (take 4 (drop 4 bs)),
     directory_offset = u64_of bo (take 8 (drop 8 bs)),
     directory_count = u32_of bo (take 4 (drop 16 bs)),
     reserved = u32_of bo (take 4 (drop 20 bs))\<rparr>"

text \<open>One directory entry read through the file stream (the disk branch of the loop
  body): the entry, the \<open>filename_length\<close> read, and the stream afterwards.\<close>

definition disk_entry ::
  "byte_order \<Rightarrow> ifstream \<Rightarrow> 64 word \<Rightarrow> directory_entry \<times> 32 word \<times> ifstream" where
  "disk_entry bo s current_pos =
    (let s0 = ifstream_seekg s current_pos;
         (lb, n0, s1) = ifstream_read s0 4 (zero_bytes 4);
         filename_length = u32_of bo lb;
         (name, s2) =
           (if 0 < filename_length \<and> filename_length < 4096
            then (case ifstream_read s1 (unat filename_length) (zero_bytes (unat filename_length)) of
                    (nb, n1, s') \<Rightarrow> (map char_of_byte nb, s'))
            else ([], s1));
         (b1, n2, s3) = ifstream_read s2 8 (zero_bytes 8);
         (b2, n3, s4) = ifstream_read s3 8 (zero_bytes 8);
         (b3, n4, s5) = ifstream_read s4 8 (zero_bytes 8);
         (b4, n5, s6) = ifstream_read s5 1 (zero_bytes 1)
     in (\<lparr>filename = name, data_offset = u64_of bo b1, compressed_size = u64_of bo b2,
          uncompressed_size = u64_of bo b3, compression = of_nat (object_value bo b4)\<rparr>,
         filename_length, s6))"

text \<open>One directory entry copied out of the memory buffer (the memory branch of the
  loop body): an error, or the entry and the position after it.\<close>

definition memory_entry ::
  "byte_order \<Rightarrow> bytes \<Rightarrow> 64 word \<Rightarrow> (archive_error + directory_entry \<times> 64 word) option" where
  "memory_entry bo mem current_pos =
    (if length mem < unat (current_pos + 4) then Some (Inl read_error)
     else case mem_read mem current_pos 4 of
       None \<Rightarrow> None
     | Some lb \<Rightarrow>
         let filename_length = u32_of bo lb;
             pos1 = current_pos + 4
         in if length mem < unat (pos1 + ucast filename_length) then Some (Inl read_error)
            else
              (case (if 0 < filename_length \<and> filename_length < 4096
                     then map_option (map char_of_byte) (mem_read mem pos1 (unat filename_length))
                     else Some []) of
                None \<Rightarrow> None
              | Some name \<Rightarrow>
                  let pos2 = pos1 + ucast filename_length
                  in if length mem < unat (pos2 + 25) then Some (Inl read_error)
                     else
                       (case (mem_read mem pos2 8, mem_read mem (pos2 + 8) 8,
                              mem_read mem (pos2 + 16) 8, mem_read mem (pos2 + 24) 1) of
                         (Some b1, Some b2, Some b3, Some b4) \<Rightarrow>
                           Some (Inr (\<lparr>filename = name, data_offset = u64_of bo b1,
                                       compressed_size = u64_of bo b2,
                                       uncompressed_size = u64_of bo b3,
                                       compression = of_nat (object_value bo b4)\<rparr>,
                                      pos2 + 25))
                       | _ \<Rightarrow> None)))"

definition insert_entry :: "directory_entry \<Rightarrow> archive \<Rightarrow> archive" where
  "insert_entry e a =
    (if filename e \<noteq> [] then a\<lparr>directory := fmupd (filename e) e (directory a)\<rparr> else a)"

text \<open>The \<^verbatim>\<open>for (i = 0; i < header.directory_count; ++i)\<close> loop, by the number of
  iterations left.\<close>

fun load_entries :: "byte_order \<Rightarrow> nat \<Rightarrow> archive \<Rightarrow> 64 word \<Rightarrow> (archive_error + archive) option" where
  "load_entries bo 0 a current_pos = Some (Inr a)"
| "load_entries bo (Suc n) a current_pos =
    (if mode a = disk
     then (case disk_entry bo (file_stream a) current_pos of
             (e, filename_length, s') \<Rightarrow>
               load_entries bo n (insert_entry e (a\<lparr>file_stream := s'\<rparr>))
                 (current_pos + (4 + ucast filename_length + 8 + 8 + 8 + 1)))
     else (case memory_entry bo (memory_data a) current_pos of
             None \<Rightarrow> None
           | Some (Inl err) \<Rightarrow> Some (Inl err)
           | Some (Inr (e, pos')) \<Rightarrow> load_entries bo n (insert_entry e a) pos'))"

definition read_header :: "byte_order \<Rightarrow> archive \<Rightarrow> archive_error + archive_header \<times> archive" where
  "read_header bo a =
    (if mode a = disk
     then (if \<not> if_open (file_stream a) then Inl file_not_found
           else case ifstream_read (ifstream_seekg (file_stream a) 0) 24 (zero_bytes 24) of
             (hb, n, s') \<Rightarrow>
               if if_fail s' \<or> n \<noteq> 24 then Inl read_error
               else Inr (header_of bo hb, a\<lparr>file_stream := s'\<rparr>))
     else (if length (memory_data a) < 24 then Inl invalid_format
           else Inr (header_of bo (take 24 (memory_data a)), a)))"

definition load_directory :: "byte_order \<Rightarrow> archive \<Rightarrow> (archive_error + archive) option" where
  "load_directory bo a =
    (case read_header bo a of
      Inl err \<Rightarrow> Some (Inl err)
    | Inr (header, a') \<Rightarrow>
        if magic header \<noteq> MAGIC_NUMBER then Some (Inl invalid_format)
        else if version header \<noteq> FORMAT_VERSION then Some (Inl invalid_format)
        else load_entries bo (unat (directory_count header)) (a'\<lparr>directory := fmempty\<rparr>)
               (directory_offset header))"

text \<open>
  The memory branch of the constructor: when the file opens, \<^verbatim>\<open>memory_data_\<close> is
  resized to its end position and that many bytes are read into it (a short read
  leaves the rest zero); when it does not open, \<^verbatim>\<open>memory_data_\<close> stays empty. \<open>Inl\<close>
  is the exception of \<^verbatim>\<open>resize\<close>.
\<close>

definition read_whole :: "heap \<Rightarrow> filesystem \<Rightarrow> path \<Rightarrow> exception + bytes" where
  "read_whole H fs p =
    (case fs_open fs p of
      None \<Rightarrow> Inr []
    | Some (end_pos, c) \<Rightarrow>
        let n = size_t_of end_pos in
        (case vector_alloc H n of
          Some ex \<Rightarrow> Inl ex
        | None \<Rightarrow> Inr (take n c @ zero_bytes (n - length c))))"

text \<open>
  The constructor: \<open>Inl\<close> is the exception that leaves it, the \<^verbatim>\<open>std::runtime_error\<close>
  it throws when the directory does not load, or the one \<^verbatim>\<open>resize\<close> raised.
\<close>

definition archive_ctor ::
  "byte_order \<Rightarrow> heap \<Rightarrow> filesystem \<Rightarrow> path \<Rightarrow> access_mode \<Rightarrow> (exception + archive) option" where
  "archive_ctor bo H fs p m =
    (case (if m = disk then Inr [] else read_whole H fs p) of
      Inl ex \<Rightarrow> Some (Inl ex)
    | Inr mem \<Rightarrow>
        (case load_directory bo
                \<lparr>file_path = p, mode = m,
                 file_stream = (if m = disk then ifstream_open fs p else ifstream_closed),
                 memory_data = mem,
                 directory = fmempty\<rparr> of
          None \<Rightarrow> None
        | Some (Inl err) \<Rightarrow> Some (Inl runtime_error)
        | Some (Inr a) \<Rightarrow> Some (Inr a)))"

text \<open>
  \<open>read_file_data\<close> makes the vector of \<open>compressed_size\<close> bytes before it looks at
  the file or the buffer: an exception of that constructor (\<^verbatim>\<open>std::length_error\<close>,
  \<^verbatim>\<open>std::bad_alloc\<close>) leaves \<open>read_file_data\<close>, \<open>archive::open\<close> and \<open>vfs::open\<close>,
  none of which catches it.
\<close>

definition read_file_data ::
  "heap \<Rightarrow> archive \<Rightarrow> directory_entry \<Rightarrow> ((archive_error + bytes) \<times> archive) option" where
  "read_file_data H a e =
    (let n = unat (compressed_size e) in
     if vector_alloc H n \<noteq> None then None
     else if mode a = disk
     then (case ifstream_read (ifstream_seekg (file_stream a) (data_offset e)) n (zero_bytes n) of
             (buf, k, s') \<Rightarrow>
               Some (if if_fail s' \<or> k \<noteq> n then Inl read_error else Inr buf,
                     a\<lparr>file_stream := s'\<rparr>))
     else (if length (memory_data a) < unat (data_offset e + compressed_size e)
           then Some (Inl read_error, a)
           else map_option (\<lambda>buf. (Inr buf, a)) (mem_read (memory_data a) (data_offset e) n)))"

definition archive_open ::
  "heap \<Rightarrow> 'z zlib \<Rightarrow> archive \<Rightarrow> string \<Rightarrow> ((archive_error + vfstream) \<times> archive) option" where
  "archive_open H Z a name =
    (case fmlookup (directory a) name of
      None \<Rightarrow> Some (Inl entry_not_found, a)
    | Some e \<Rightarrow>
        (case read_file_data H a e of
          None \<Rightarrow> None
        | Some (Inl err, a') \<Rightarrow> Some (Inl err, a')
        | Some (Inr buf, a') \<Rightarrow>
            if compression e \<noteq> none
            then (case decompress H Z buf (compression e) (unat (uncompressed_size e)) of
                    None \<Rightarrow> None
                  | Some (Inl err) \<Rightarrow> Some (Inl compression_error, a')
                  | Some (Inr d) \<Rightarrow> Some (Inr (vfstream_ctor d), a'))
            else Some (Inr (vfstream_ctor buf), a')))"

definition archive_contains :: "archive \<Rightarrow> string \<Rightarrow> bool" where
  "archive_contains a name = (fmlookup (directory a) name \<noteq> None)"

subsection \<open>vfs.hpp, vfs.cpp\<close>

datatype vfs_error = vfs_archive_error | vfs_file_not_found | cache_error

datatype search_order = mount_order | reverse_mount_order

record vfs =
  archives :: "archive list"
  cache_enabled :: bool
  search_order :: search_order
  cache :: "(string, bytes) fmap"

definition vfs_ctor :: vfs where
  "vfs_ctor = \<lparr>archives = [], cache_enabled = True, search_order = reverse_mount_order,
               cache = fmempty\<rparr>"

text \<open>\<open>mount\<close> catches every \<^verbatim>\<open>std::exception\<close> of the constructor.\<close>

definition mount ::
  "byte_order \<Rightarrow> heap \<Rightarrow> filesystem \<Rightarrow> vfs \<Rightarrow> path \<Rightarrow> access_mode \<Rightarrow> ((vfs_error + unit) \<times> vfs) option" where
  "mount bo H fs v p m =
    (case archive_ctor bo H fs p m of
      None \<Rightarrow> None
    | Some (Inl ex) \<Rightarrow> Some (Inl vfs_archive_error, v)
    | Some (Inr a) \<Rightarrow> Some (Inr (), v\<lparr>archives := archives v @ [a]\<rparr>))"

definition enable_cache :: "vfs \<Rightarrow> bool \<Rightarrow> vfs" where
  "enable_cache v enable = v\<lparr>cache_enabled := enable\<rparr>"

definition clear_cache :: "vfs \<Rightarrow> vfs" where
  "clear_cache v = v\<lparr>cache := fmempty\<rparr>"

definition cache_size :: "vfs \<Rightarrow> nat" where
  "cache_size v = fcard (fmdom (cache v))"

definition set_search_order :: "vfs \<Rightarrow> search_order \<Rightarrow> vfs" where
  "set_search_order v order = v\<lparr>search_order := order\<rparr>"

definition get_search_order :: "vfs \<Rightarrow> search_order" where
  "get_search_order v = search_order v"

text \<open>
  The search loop of \<open>vfs::open\<close>, over the archives in the order they are tried. The
  source writes the loop twice, over \<^verbatim>\<open>rbegin..rend\<close> and over \<^verbatim>\<open>begin..end\<close>, with
  the same body. The result is the stream of the first archive that contains the name
  and opens it, if there is one, and the archives as the calls left them.
\<close>

fun open_first ::
  "heap \<Rightarrow> 'z zlib \<Rightarrow> string \<Rightarrow> archive list \<Rightarrow> (vfstream option \<times> archive list) option" where
  "open_first H Z name [] = Some (None, [])"
| "open_first H Z name (arch # rest) =
    (if archive_contains arch name
     then (case archive_open H Z arch name of
             None \<Rightarrow> None
           | Some (Inr strm, arch') \<Rightarrow> Some (Some strm, arch' # rest)
           | Some (Inl err, arch') \<Rightarrow>
               map_option (\<lambda>(r, rest'). (r, arch' # rest')) (open_first H Z name rest))
     else map_option (\<lambda>(r, rest'). (r, arch # rest')) (open_first H Z name rest))"

text \<open>
  What \<open>vfs::open\<close> does with a stream when caching is on: seek to the end, take the
  position as the size, seek back, read that many bytes into a vector of that size, and
  seek back again. A negative size makes \<^verbatim>\<open>data.resize\<close> throw.
\<close>

definition read_all :: "vfstream \<Rightarrow> (bytes \<times> vfstream) option" where
  "read_all strm =
    (let s1 = seekg strm 0 seek_end;
         size = tellg s1;
         s2 = seekg s1 0 seek_beg
     in if size < 0 then None
        else case vfstream_read s2 size of
          None \<Rightarrow> None
        | Some (got, s3) \<Rightarrow>
            Some (got @ zero_bytes (nat size - length got), seekg s3 0 seek_beg))"

definition search_list :: "vfs \<Rightarrow> archive list" where
  "search_list v = (if search_order v = reverse_mount_order then rev (archives v) else archives v)"

definition vfs_open ::
  "heap \<Rightarrow> 'z zlib \<Rightarrow> vfs \<Rightarrow> string \<Rightarrow> ((vfs_error + vfstream) \<times> vfs) option" where
  "vfs_open H Z v name =
    (case (if cache_enabled v then fmlookup (cache v) name else None) of
      Some d \<Rightarrow> Some (Inr (vfstream_ctor d), v)
    | None \<Rightarrow>
        (case open_first H Z name (search_list v) of
          None \<Rightarrow> None
        | Some (r, tried) \<Rightarrow>
            let v' = v\<lparr>archives := (if search_order v = reverse_mount_order then rev tried else tried)\<rparr>
            in (case r of
                 None \<Rightarrow> Some (Inl vfs_file_not_found, v')
               | Some strm \<Rightarrow>
                   if cache_enabled v
                   then (case read_all strm of
                           None \<Rightarrow> None
                         | Some (d, strm') \<Rightarrow> Some (Inr strm', v'\<lparr>cache := fmupd name d (cache v)\<rparr>))
                   else Some (Inr strm, v'))))"

definition vfs_contains :: "vfs \<Rightarrow> string \<Rightarrow> bool" where
  "vfs_contains v name =
    ((cache_enabled v \<and> fmlookup (cache v) name \<noteq> None)
     \<or> list_ex (\<lambda>a. archive_contains a name) (search_list v))"

subsection \<open>Reference notions used to state properties\<close>

text \<open>
  The bytes of one directory entry as the format lays them out: the declared
  \<open>filename_length\<close>, the name, the three 64-bit fields and the method byte. The
  declared length is kept apart from the name, so that entries whose length field is 0
  or 4096 and more can be written down too.
\<close>

definition raw_entry_bytes :: "byte_order \<Rightarrow> 32 word \<times> directory_entry \<Rightarrow> bytes" where
  "raw_entry_bytes bo le =
    (case le of (len, e) \<Rightarrow>
       u32_bytes bo len @ map byte_of_char (filename e) @ u64_bytes bo (data_offset e)
         @ u64_bytes bo (compressed_size e) @ u64_bytes bo (uncompressed_size e)
         @ [compression e])"

text \<open>
  The directory the format description asks for: entries in file order, those with a
  length field of 0 or of 4096 and more left out, a later entry replacing an earlier one
  of the same name.
\<close>

fun kept_entries ::
  "(32 word \<times> directory_entry) list \<Rightarrow> (string, directory_entry) fmap
    \<Rightarrow> (string, directory_entry) fmap" where
  "kept_entries [] m = m"
| "kept_entries ((len, e) # es) m =
     kept_entries es (if 0 < len \<and> len < 4096 then fmupd (filename e) e m else m)"

text \<open>Compressing and decompressing again gives the input back.\<close>

definition roundtrip :: "heap \<Rightarrow> 'z zlib \<Rightarrow> bytes \<Rightarrow> compression_method \<Rightarrow> bool" where
  "roundtrip H Z b m =
    (case compress Z b m of
      Some (Inr c) \<Rightarrow> decompress H Z c m (length b) = Some (Inr b)
    | _ \<Rightarrow> False)"

definition four_gib :: bytes where
  "four_gib = replicate (2 ^ 32) 0"

subsection \<open>Concrete inputs\<close>

text \<open>
  Small concrete inputs on which the definitions are run. \<open>no_zlib\<close> is a zlib
  whose every call fails (\<^verbatim>\<open>deflateInit\<close> and \<^verbatim>\<open>inflateInit\<close> answer
  \<^verbatim>\<open>Z_MEM_ERROR\<close>): entries stored without compression never reach it.
\<close>

definition no_zlib :: "unit zlib" where
  "no_zlib = \<lparr>z_deflateInit = (\<lambda>level. (Z_MEM_ERROR, ())),
              z_deflate = (\<lambda>s inp room flush. (Z_STREAM_ERROR, 0, [], ())),
              z_inflateInit = (Z_MEM_ERROR, ()),
              z_inflate = (\<lambda>s inp room flush. (Z_STREAM_ERROR, 0, [], ()))\<rparr>"

text \<open>A heap that serves blocks of up to 64 KiB.\<close>

definition heap_64k :: heap where
  "heap_64k = (\<lambda>n. n \<le> 65536)"

text \<open>
  A source tree: \<^verbatim>\<open>assets/hello.txt\<close> holds "hi", \<^verbatim>\<open>assets/sub/n.bin\<close> holds three
  bytes. The directory \<^verbatim>\<open>assets\<close> opens for reading, delivers nothing and has no end
  position. The status query fails for names of more than 255 characters, none of which
  names a file.
\<close>

definition src_fs :: filesystem where
  "src_fs =
    \<lparr>fs_type = (\<lambda>p. if p \<in> {''assets'', ''assets/sub''} then ft_directory
                    else if p \<in> {''assets/hello.txt'', ''assets/sub/n.bin''} then ft_regular
                    else ft_not_found),
     fs_status_fails = (\<lambda>p. 255 < length p),
     fs_walk = (\<lambda>p. if p = ''assets''
                    then ([\<lparr>entry_path = ''assets/hello.txt'', is_regular_file = True,
                            relative_path = ''hello.txt''\<rparr>,
                           \<lparr>entry_path = ''assets/sub'', is_regular_file = False,
                            relative_path = ''sub''\<rparr>,
                           \<lparr>entry_path = ''assets/sub/n.bin'', is_regular_file = True,
                            relative_path = ''sub/n.bin''\<rparr>], False)
                    else ([], False)),
     fs_open = (\<lambda>p. if p = ''assets'' then Some (- 1, [])
                    else map_option regular_file
                           (map_of [(''assets/hello.txt'', [0x68, 0x69]),
                                    (''assets/sub/n.bin'', [1, 2, 3])] p)),
     fs_can_create = (\<lambda>p. True),
     fs_space = 4096\<rparr>"

text \<open>A name of 300 characters.\<close>

definition long_name :: path where
  "long_name = replicate 300 (CHR ''a'')"

text \<open>
  \<open>copy_zlib\<close> stands in for zlib where a run needs compression to succeed: its
  "compressed" stream is the input itself, handed out in pieces of the room offered, and
  \<^verbatim>\<open>Z_STREAM_END\<close> is answered once the rest of the input fits.
\<close>

definition copy_zlib :: "unit zlib" where
  "copy_zlib =
    \<lparr>z_deflateInit = (\<lambda>level. (Z_OK, ())),
     z_deflate = (\<lambda>s inp room flush.
        (if flush = Z_FINISH \<and> length inp \<le> room then Z_STREAM_END else Z_OK,
         min (length inp) room, take room inp, ())),
     z_inflateInit = (Z_OK, ()),
     z_inflate = (\<lambda>s inp room flush.
        (if length inp \<le> room then Z_STREAM_END else Z_OK,
         min (length inp) room, take room inp, ()))\<rparr>"

definition deflate_builder :: archive_builder where
  "deflate_builder = add_file (archive_builder_ctor deflate) ''assets/hello.txt'' ''common.txt'' none"

definition hello_builder :: archive_builder where
  "hello_builder = add_file (archive_builder_ctor none) ''assets/hello.txt'' ''common.txt'' none"

text \<open>
  Containers of one entry \<^verbatim>\<open>common.txt\<close> each, as a little-endian host writes
  them: the header, two bytes of data, and the entry with the given \<open>compressed_size\<close>,
  \<open>uncompressed_size\<close> and method. \<open>pak_a1\<close> holds "hi" and is what \<open>build\<close> makes
  of \<open>hello_builder\<close>; \<open>pak_a2\<close> holds "B2"; \<open>pak_bad\<close> is \<open>pak_a2\<close> with a
  \<open>compressed_size\<close> of 200, more than the file holds; \<open>pak_z\<close> is what \<open>build\<close>
  makes of \<open>deflate_builder\<close> when \<open>copy_zlib\<close> stands in for zlib.
\<close>

definition pak_of :: "bytes \<Rightarrow> byte \<Rightarrow> byte \<Rightarrow> byte \<Rightarrow> bytes" where
  "pak_of content csize usize method =
     [0x46, 0x4B, 0x41, 0x50, 1, 0, 0, 0, 26, 0, 0, 0, 0, 0, 0, 0, 1, 0, 0, 0, 0, 0, 0, 0]
     @ content
     @ [10, 0, 0, 0, 0x63, 0x6F, 0x6D, 0x6D, 0x6F, 0x6E, 0x2E, 0x74, 0x78, 0x74,
        24, 0, 0, 0, 0, 0, 0, 0, csize, 0, 0, 0, 0, 0, 0, 0, usize, 0, 0, 0, 0, 0, 0, 0,
        method]"

definition pak_a1 :: bytes where
  "pak_a1 = pak_of [0x68, 0x69] 2 0 0"

definition pak_a2 :: bytes where
  "pak_a2 = pak_of [0x42, 0x32] 2 0 0"

definition pak_z :: bytes where
  "pak_z = pak_of [0x68, 0x69] 2 2 1"

definition pak_bad :: bytes where
  "pak_bad = pak_of [0x42, 0x32] 200 0 0"

text \<open>
  \<open>pak_short\<close> is \<open>pak_a2\<close> with a \<open>directory_count\<close> of 2 in its header: the file
  ends where the second entry should begin. Its one entry and the two bytes "B2" the
  entry points at are as in \<open>pak_a2\<close>.
\<close>

definition pak_short :: bytes where
  "pak_short =
     [0x46, 0x4B, 0x41, 0x50, 1, 0, 0, 0, 26, 0, 0, 0, 0, 0, 0, 0, 2, 0, 0, 0, 0, 0, 0, 0,
      0x42, 0x32,
      10, 0, 0, 0, 0x63, 0x6F, 0x6D, 0x6D, 0x6F, 0x6E, 0x2E, 0x74, 0x78, 0x74,
      24, 0, 0, 0, 0, 0, 0, 0, 2, 0, 0, 0, 0, 0, 0, 0, 0, 0, 0, 0, 0, 0, 0, 0, 0]"

definition pak_fs :: filesystem where
  "pak_fs =
    \<lparr>fs_type = (\<lambda>p. if p \<in> {''a1.pak'', ''a2.pak'', ''bad.pak'', ''z.pak'', ''short.pak''}
                    then ft_regular else ft_not_found),
     fs_status_fails = (\<lambda>p. False),
     fs_walk = (\<lambda>p. ([], False)),
     fs_open = (\<lambda>p. map_option regular_file
                      (map_of [(''a1.pak'', pak_a1), (''a2.pak'', pak_a2), (''bad.pak'', pak_bad),
                               (''z.pak'', pak_z), (''short.pak'', pak_short)] p)),
     fs_can_create = (\<lambda>p. False),
     fs_space = 0\<rparr>"

definition common_entry :: "64 word \<Rightarrow> 64 word \<Rightarrow> compression_method \<Rightarrow> directory_entry" where
  "common_entry csize usize method =
     \<lparr>filename = ''common.txt'', data_offset = 24, compressed_size = csize,
      uncompressed_size = usize, compression = method\<rparr>"

text \<open>
  The archives as mounting leaves them: \<open>pak_a1\<close>, \<open>pak_z\<close> and \<open>pak_bad\<close> in memory
  mode, \<open>pak_a2\<close> and \<open>pak_short\<close> in disk mode. Loading the directory of
  \<open>pak_short\<close> reads past the end of the file for the second entry; the disk branch of
  the loader checks nothing, so the archive is mounted with its one entry and with a
  file stream whose failure flag is set.
\<close>

definition arch_a1 :: archive where
  "arch_a1 = \<lparr>file_path = ''a1.pak'', mode = memory, file_stream = ifstream_closed,
              memory_data = pak_a1, directory = fmupd ''common.txt'' (common_entry 2 0 none) fmempty\<rparr>"

definition arch_a2 :: archive where
  "arch_a2 = \<lparr>file_path = ''a2.pak'', mode = disk,
              file_stream = \<lparr>if_open = True, if_content = pak_a2, if_pos = 65, if_fail = False\<rparr>,
              memory_data = [], directory = fmupd ''common.txt'' (common_entry 2 0 none) fmempty\<rparr>"


definition arch_z :: archive where
  "arch_z = \<lparr>file_path = ''z.pak'', mode = memory, file_stream = ifstream_closed,
             memory_data = pak_z, directory = fmupd ''common.txt'' (common_entry 2 2 deflate) fmempty\<rparr>"

definition arch_bad :: archive where
  "arch_bad = \<lparr>file_path = ''bad.pak'', mode = memory, file_stream = ifstream_closed,
               memory_data = pak_bad, directory = fmupd ''common.txt'' (common_entry 200 0 none) fmempty\<rparr>"

definition vfs_two :: "search_order \<Rightarrow> bool \<Rightarrow> vfs" where
  "vfs_two order caching =
     \<lparr>archives = [arch_a1, arch_a2], cache_enabled = caching, search_order = order,
      cache = fmempty\<rparr>"

text \<open>\<open>vfs_two reverse_mount_order True\<close> after \<^verbatim>\<open>common.txt\<close> has been opened once:
  the second archive's file stream has moved, and the bytes are cached.\<close>

definition arch_a2_read :: archive where
  "arch_a2_read =
     arch_a2\<lparr>file_stream := \<lparr>if_open = True, if_content = pak_a2, if_pos = 26, if_fail = False\<rparr>\<rparr>"

definition vfs_two_opened :: vfs where
  "vfs_two_opened =
     \<lparr>archives = [arch_a1, arch_a2_read], cache_enabled = True,
      search_order = reverse_mount_order, cache = fmupd ''common.txt'' [0x42, 0x32] fmempty\<rparr>"

definition vfs_bad :: vfs where
  "vfs_bad = \<lparr>archives = [arch_a1, arch_bad], cache_enabled = True,
              search_order = reverse_mount_order, cache = fmempty\<rparr>"


text \<open>
  A directory of four entries, the second with a length field of 0 and the third with a
  length field of 4096, behind a header.
\<close>

definition mal_entries :: "(32 word \<times> directory_entry) list" where
  "mal_entries =
     [(1, \<lparr>filename = ''a'', data_offset = 24, compressed_size = 0, uncompressed_size = 0,
           compression = none\<rparr>),
      (0, \<lparr>filename = [], data_offset = 1, compressed_size = 2, uncompressed_size = 3,
           compression = deflate\<rparr>),
      (4096, \<lparr>filename = replicate 4096 (CHR ''x''), data_offset = 4, compressed_size = 5,
              uncompressed_size = 6, compression = none\<rparr>),
      (1, \<lparr>filename = ''b'', data_offset = 24, compressed_size = 0, uncompressed_size = 0,
           compression = deflate\<rparr>)]"

definition pak_mal :: bytes where
  "pak_mal =
     header_bytes little_endian
       \<lparr>magic = MAGIC_NUMBER, version = FORMAT_VERSION, directory_offset = 24,
        directory_count = 4, reserved = 0\<rparr>
     @ concat (map (raw_entry_bytes little_endian) mal_entries)"

text \<open>The directory map that loading \<open>pak_mal\<close> must give: the first and the fourth
  entry.\<close>

definition mal_directory :: "(string, directory_entry) fmap" where
  "mal_directory =
     fmupd ''b'' \<lparr>filename = ''b'', data_offset = 24, compressed_size = 0, uncompressed_size = 0,
                  compression = deflate\<rparr>
      (fmupd ''a'' \<lparr>filename = ''a'', data_offset = 24, compressed_size = 0,
                    uncompressed_size = 0, compression = none\<rparr> fmempty)"

section \<open>Properties\<close>

subsection \<open>Encoding lemmas\<close>

lemma length_encode_le [simp]: "length (encode_le n v) = n"
  by (induction n arbitrary: v) auto

lemma length_object_bytes [simp]: "length (object_bytes bo n v) = n"
  by (cases bo) (auto simp: object_bytes_def)

lemma length_u32_bytes [simp]: "length (u32_bytes bo w) = 4"
  by (simp add: u32_bytes_def)

lemma length_u64_bytes [simp]: "length (u64_bytes bo w) = 8"
  by (simp add: u64_bytes_def)

lemma length_header_bytes [simp]: "length (header_bytes bo h) = 24"
  by (simp add: header_bytes_def)

subsection \<open>Properties of the builder: collecting entries\<close>

lemma add_directory_loop_files:
  "files (add_directory_loop es pre c b) =
     files b @ map (\<lambda>e. \<lparr>source_path = entry_path e,
                          archive_path = walked_archive_path pre (relative_path e),
                          file_compression = (if c = none then default_compression b else c)\<rparr>)
                   (filter is_regular_file es)
   \<and> default_compression (add_directory_loop es pre c b) = default_compression b"
  by (induction es arbitrary: b) (auto simp: add_file_def Let_def)

text \<open>
  Claim C8, as amended. \<open>add_file\<close> records the entry with the builder's current default
  method when the method argument is \<open>none\<close>, and with the argument otherwise;
  \<open>add_directory\<close> does the same for every entry of the walk, and neither changes the
  default. So an entry is recorded uncompressed exactly when the argument is \<open>none\<close> and
  the builder's current default is \<open>none\<close>, whether the constructor or
  \<open>set_default_compression\<close> set that default.
\<close>
theorem sentinel_none_is_current_default:
  "files (add_file b src apath c) =
     files b @ [\<lparr>source_path = src, archive_path = apath,
                 file_compression = (if c = none then default_compression b else c)\<rparr>]
   \<and> (\<exists>new. files (snd (add_directory fs b dir pre c)) = files b @ new
        \<and> (\<forall>e \<in> set new. file_compression e = (if c = none then default_compression b else c)))
   \<and> default_compression (add_file b src apath c) = default_compression b
   \<and> default_compression (snd (add_directory fs b dir pre c)) = default_compression b
   \<and> (file_compression (last (files (add_file b src apath c))) = none
        \<longleftrightarrow> c = none \<and> default_compression b = none)"
  by (auto simp: add_file_def add_directory_def add_directory_loop_files Let_def
           split: option.splits prod.splits)

text \<open>
  Claim C9, as amended. For a path that names no file, or a file that is not a
  directory, \<open>add_directory\<close> leaves the builder as it was: the recorded file list and
  \<open>file_count\<close> are unchanged. It returns (it has no error to report: the C++ function
  returns \<^verbatim>\<open>void\<close>) when the status query for the path succeeds, and a
  \<^verbatim>\<open>filesystem_error\<close> leaves it when the status query fails.
\<close>
theorem add_directory_missing_is_noop:
  "fs_type fs dir \<noteq> ft_directory \<Longrightarrow>
     add_directory fs b dir pre c
       = (if fs_status_fails fs dir then Inl filesystem_error else Inr (), b)
     \<and> files (snd (add_directory fs b dir pre c)) = files b
     \<and> file_count (snd (add_directory fs b dir pre c)) = file_count b"
  by (auto simp: add_directory_def fs_exists_def fs_is_directory_def)

subsection \<open>Reading a regular file\<close>

lemma size_t_of_length: "n < 2 ^ 64 \<Longrightarrow> size_t_of (int n) = n"
  by (simp add: size_t_of_def)

lemma vector_alloc_served: "vector_alloc H n = None \<Longrightarrow> n < 2 ^ 64"
  by (simp add: vector_alloc_def split: if_splits)

lemma read_source_regular:
  assumes "fs_open fs p = Some (regular_file c)" and "vector_alloc H (length c) = None"
  shows "read_source H fs p = Some (Inr c)"
  using assms size_t_of_length[OF vector_alloc_served[OF assms(2)]]
  by (simp add: read_source_def regular_file_def)

lemma read_whole_regular:
  assumes "fs_open fs p = Some (regular_file c)" and "vector_alloc H (length c) = None"
  shows "read_whole H fs p = Inr c"
  using assms size_t_of_length[OF vector_alloc_served[OF assms(2)]]
  by (simp add: read_whole_def regular_file_def zero_bytes_def)

subsection \<open>Properties of the builder: the container\<close>

lemma ofstream_write_good:
  assumes "\<not> of_fail (ofstream_write fs out bs)" and "of_pos out = length (of_content out)"
  shows "\<not> of_fail out"
    and "of_pos out + length bs < 2 ^ 63"
    and "ofstream_write fs out bs =
           out\<lparr>of_content := of_content out @ bs, of_pos := of_pos out + length bs\<rparr>"
  using assms by (auto simp: ofstream_write_def split: if_splits)

lemma ofstream_write_content:
  assumes "of_pos out = length (of_content out)"
  shows "\<exists>blob. of_content (ofstream_write fs out bs) = of_content out @ blob
          \<and> of_pos (ofstream_write fs out bs) = length (of_content (ofstream_write fs out bs))"
  using assms by (auto simp: ofstream_write_def)

lemma write_files_Cons_cases:
  assumes "write_files H Z fs (fe # rest) out dir off = Some (r, out')"
  shows "(out' = out \<and> (\<exists>e. r = Inl e))
       \<or> (\<exists>c. out' = ofstream_write fs out c \<and> of_fail out' \<and> r = Inl write_error)
       \<or> (\<exists>c u. \<not> of_fail (ofstream_write fs out c)
            \<and> write_files H Z fs rest (ofstream_write fs out c)
                 (dir @ [\<lparr>filename = archive_path fe, data_offset = off,
                          compressed_size = of_nat (length c), uncompressed_size = u,
                          compression = file_compression fe\<rparr>])
                 (off + of_nat (length c)) = Some (r, out'))"
proof (cases "read_source H fs (source_path fe)")
  case None
  then show ?thesis using assms by auto
next
  case (Some src)
  show ?thesis
  proof (cases src)
    case (Inl e)
    then show ?thesis using assms Some by auto
  next
  case (Inr bs)
  note bs = Some[unfolded Inr]
  show ?thesis
  proof (cases "if file_compression fe \<noteq> none
             then map_option (map_sum id (\<lambda>c. (c, bs))) (compress Z bs (file_compression fe))
             else Some (Inr (bs, []))")
    case None
    then show ?thesis using assms bs by auto
  next
    case (Some res)
    note res = Some
    show ?thesis
    proof (cases res)
      case (Inl e)
      then show ?thesis using assms bs res by auto
    next
      case (Inr cd)
      obtain c d' where cd: "cd = (c, d')" by (cases cd)
      show ?thesis
      proof (cases "of_fail (ofstream_write fs out c)")
        case True
        then have "out' = ofstream_write fs out c \<and> of_fail out' \<and> r = Inl write_error"
          using assms bs res Inr cd by auto
        then show ?thesis by blast
      next
        case False
        then have "write_files H Z fs rest (ofstream_write fs out c)
                 (dir @ [\<lparr>filename = archive_path fe, data_offset = off,
                          compressed_size = of_nat (length c),
                          uncompressed_size = of_nat (length d'),
                          compression = file_compression fe\<rparr>])
                 (off + of_nat (length c)) = Some (r, out')"
          using assms bs res Inr cd by simp
        then show ?thesis using False by blast
      qed
    qed
  qed
  qed
qed

lemma write_files_content:
  assumes "write_files H Z fs fl out dir off = Some (r, out')"
    and "of_pos out = length (of_content out)"
  shows "\<exists>blob. of_content out' = of_content out @ blob \<and> of_pos out' = length (of_content out')"
  using assms
proof (induction fl arbitrary: out dir off)
  case Nil
  then show ?case by simp
next
  case (Cons fe rest)
  from write_files_Cons_cases[OF Cons.prems(1)]
  consider (a) "out' = out"
    | (b) c where "out' = ofstream_write fs out c"
    | (c) c u where "write_files H Z fs rest (ofstream_write fs out c)
                 (dir @ [\<lparr>filename = archive_path fe, data_offset = off,
                          compressed_size = of_nat (length c), uncompressed_size = u,
                          compression = file_compression fe\<rparr>])
                 (off + of_nat (length c)) = Some (r, out')"
    by blast
  then show ?case
  proof cases
    case a
    then show ?thesis using Cons.prems(2) by simp
  next
    case b
    then show ?thesis using ofstream_write_content[OF Cons.prems(2)] by simp
  next
    case c
    from ofstream_write_content[OF Cons.prems(2), of fs c]
    obtain blob1 where b1: "of_content (ofstream_write fs out c) = of_content out @ blob1"
      "of_pos (ofstream_write fs out c) = length (of_content (ofstream_write fs out c))"
      by blast
    from Cons.IH[OF c b1(2)] b1(1) show ?thesis by auto
  qed
qed

lemma write_files_Cons_success:
  assumes "write_files H Z fs (fe # rest) out dir off = Some (Inr res, out')"
  shows "\<exists>c u. \<not> of_fail (ofstream_write fs out c)
          \<and> write_files H Z fs rest (ofstream_write fs out c)
               (dir @ [\<lparr>filename = archive_path fe, data_offset = off,
                        compressed_size = of_nat (length c), uncompressed_size = u,
                        compression = file_compression fe\<rparr>])
               (off + of_nat (length c)) = Some (Inr res, out')"
  using write_files_Cons_cases[OF assms] by auto

lemma unat_of_nat_64: "n < 2 ^ 63 \<Longrightarrow> unat (of_nat n :: 64 word) = n"
  by (simp add: unat_of_nat)

lemma write_files_layout:
  assumes "write_files H Z fs fl out dir off = Some (Inr (dir', off'), out')"
    and "of_pos out = length (of_content out)"
    and "\<not> of_fail out"
    and "of_pos out < 2 ^ 63"
    and "off = of_nat (of_pos out)"
  shows "\<not> of_fail out' \<and> of_pos out' < 2 ^ 63 \<and> of_pos out \<le> of_pos out'
       \<and> off' = of_nat (of_pos out')
       \<and> (\<exists>new. dir' = dir @ new \<and> length new = length fl
            \<and> (\<forall>e \<in> set new. of_pos out \<le> unat (data_offset e)
                  \<and> unat (data_offset e) + unat (compressed_size e) \<le> of_pos out'))"
  using assms
proof (induction fl arbitrary: out dir off)
  case Nil
  then show ?case by auto
next
  case (Cons fe rest)
  from write_files_Cons_success[OF Cons.prems(1)]
  obtain c u where ok: "\<not> of_fail (ofstream_write fs out c)"
    and rec: "write_files H Z fs rest (ofstream_write fs out c)
               (dir @ [\<lparr>filename = archive_path fe, data_offset = off,
                        compressed_size = of_nat (length c), uncompressed_size = u,
                        compression = file_compression fe\<rparr>])
               (off + of_nat (length c)) = Some (Inr (dir', off'), out')"
    by blast
  let ?out1 = "ofstream_write fs out c"
  let ?e = "\<lparr>filename = archive_path fe, data_offset = off,
                        compressed_size = of_nat (length c),
                        uncompressed_size = u,
                        compression = file_compression fe\<rparr>"
  note w = ofstream_write_good[OF ok Cons.prems(2)]
  have p1: "of_pos ?out1 = of_pos out + length c" "of_pos ?out1 = length (of_content ?out1)"
    using w(3) Cons.prems(2) by simp_all
  have lt: "of_pos ?out1 < 2 ^ 63" using w(2) p1 by simp
  have off1: "off + of_nat (length c) = of_nat (of_pos ?out1)"
    using Cons.prems(5) p1 by simp
  from Cons.IH[OF rec p1(2) ok lt off1]
  obtain new where IH: "\<not> of_fail out'" "of_pos out' < 2 ^ 63" "of_pos ?out1 \<le> of_pos out'"
    "off' = of_nat (of_pos out')" "dir' = (dir @ [?e]) @ new" "length new = length rest"
    "\<forall>e \<in> set new. of_pos ?out1 \<le> unat (data_offset e)
                  \<and> unat (data_offset e) + unat (compressed_size e) \<le> of_pos out'"
    by blast
  have uo: "unat off = of_pos out"
    using Cons.prems(4,5) by (simp add: unat_of_nat_64)
  have "length c < 2 ^ 63" using w(2) by simp
  then have uc: "unat (of_nat (length c) :: 64 word) = length c"
    by (simp add: unat_of_nat_64)
  have e_ok: "of_pos out \<le> unat (data_offset ?e)
      \<and> unat (data_offset ?e) + unat (compressed_size ?e) \<le> of_pos out'"
    using uo uc IH(3) p1(1) by simp
  have "dir' = dir @ (?e # new)" using IH(5) by simp
  moreover have "length (?e # new) = length (fe # rest)" using IH(6) by simp
  moreover have "\<forall>e \<in> set (?e # new). of_pos out \<le> unat (data_offset e)
                  \<and> unat (data_offset e) + unat (compressed_size e) \<le> of_pos out'"
    using e_ok IH(7) p1(1) by auto
  moreover have "of_pos out \<le> of_pos out'" using IH(3) p1(1) by simp
  ultimately show ?case using IH(1,2,4) by blast
qed

lemma fold_write_content:
  assumes "of_pos out = length (of_content out)"
  shows "\<exists>blob. of_content (fold (\<lambda>bs o'. ofstream_write fs o' bs) bss out) = of_content out @ blob
          \<and> of_pos (fold (\<lambda>bs o'. ofstream_write fs o' bs) bss out)
              = length (of_content (fold (\<lambda>bs o'. ofstream_write fs o' bs) bss out))"
  using assms
proof (induction bss arbitrary: out)
  case Nil
  then show ?case by simp
next
  case (Cons bs bss)
  from ofstream_write_content[OF Cons.prems, of fs bs]
  obtain b1 where 1: "of_content (ofstream_write fs out bs) = of_content out @ b1"
    "of_pos (ofstream_write fs out bs) = length (of_content (ofstream_write fs out bs))"
    by blast
  from Cons.IH[OF 1(2)] 1(1) show ?case by auto
qed

lemma write_directory_content:
  assumes "write_directory bo fs dir out = (r, out')"
    and "of_pos out = length (of_content out)"
  shows "\<exists>blob. of_content out' = of_content out @ blob \<and> of_pos out' = length (of_content out')"
  using assms
proof (induction dir arbitrary: out)
  case Nil
  then show ?case by simp
next
  case (Cons e es)
  let ?o1 = "fold (\<lambda>bs o'. ofstream_write fs o' bs) (entry_bytes bo e) out"
  from fold_write_content[OF Cons.prems(2), of fs "entry_bytes bo e"]
  obtain b1 where 1: "of_content ?o1 = of_content out @ b1" "of_pos ?o1 = length (of_content ?o1)"
    by blast
  show ?case
  proof (cases "of_fail ?o1")
    case True
    then show ?thesis using Cons.prems(1) 1 by (simp add: Let_def)
  next
    case False
    then have "write_directory bo fs es ?o1 = (r, out')"
      using Cons.prems(1) by (simp add: Let_def)
    from Cons.IH[OF this 1(2)] 1(1) show ?thesis by auto
  qed
qed


lemma encode_le_4:
  "encode_le 4 v = [of_nat v, of_nat (v div 256), of_nat (v div 256 div 256),
                    of_nat (v div 256 div 256 div 256)]"
proof -
  have e: "(4::nat) = Suc (Suc (Suc (Suc 0)))" by simp
  have m: "\<And>x. (of_nat (x mod 256) :: 8 word) = of_nat x"
    by (simp add: word_eq_iff_unsigned[where ?'a = nat] unat_of_nat flip: take_bit_eq_mod)
  show ?thesis unfolding e by (simp add: m)
qed

lemma magic_bytes:
  "u32_bytes bo MAGIC_NUMBER =
     (case bo of little_endian \<Rightarrow> [0x46, 0x4B, 0x41, 0x50] | big_endian \<Rightarrow> [0x50, 0x41, 0x4B, 0x46])"
  by (cases bo) (simp_all add: u32_bytes_def object_bytes_def MAGIC_NUMBER_def encode_le_4)

lemma decode_encode_le: "decode_le (encode_le n v) = v mod 256 ^ n"
proof (induction n arbitrary: v)
  case 0
  then show ?case by simp
next
  case (Suc n)
  have "unat (of_nat (v mod 256) :: 8 word) = v mod 256"
    by (simp add: unat_of_nat)
  then show ?case using Suc
    by (simp add: mod_mult2_eq)
qed

lemma object_value_bytes: "object_value bo (object_bytes bo n v) = v mod 256 ^ n"
  by (cases bo) (auto simp: object_bytes_def object_value_def decode_encode_le)

lemma u32_roundtrip [simp]: "u32_of bo (u32_bytes bo w) = w"
proof -
  have "unat w < 256 ^ 4" using unsigned_less[of w, where ?'a = nat] by simp
  then show ?thesis by (simp add: u32_of_def u32_bytes_def object_value_bytes)
qed

lemma u64_roundtrip [simp]: "u64_of bo (u64_bytes bo w) = w"
proof -
  have "unat w < 256 ^ 8" using unsigned_less[of w, where ?'a = nat] by simp
  then show ?thesis by (simp add: u64_of_def u64_bytes_def object_value_bytes)
qed

lemma header_roundtrip:
  "header_of bo (header_bytes bo h @ rest) =
     \<lparr>magic = magic h, version = version h, directory_offset = directory_offset h,
      directory_count = directory_count h, reserved = reserved h\<rparr>"
  by (simp add: header_of_def header_bytes_def)

lemma build_success:
  assumes "build bo H Z fs b p = Some (Inr (h, dir), out)"
  defines "h0 \<equiv> \<lparr>magic = MAGIC_NUMBER, version = FORMAT_VERSION, directory_offset = 0,
                  directory_count = of_nat (length (files b)), reserved = 0\<rparr>"
  defines "o0 \<equiv> ofstream_write fs (ofstream_open fs p) (header_bytes bo h0)"
  shows "\<exists>out1 out2 off.
           \<not> of_fail (ofstream_open fs p) \<and> \<not> of_fail o0
         \<and> write_files H Z fs (files b) o0 [] 24 = Some (Inr (dir, off), out1)
         \<and> h = h0\<lparr>directory_offset := of_int (ofstream_tellp out1)\<rparr>
         \<and> write_directory bo fs dir out1 = (Inr (), out2)
         \<and> out = ofstream_write fs (ofstream_seekp out2 0) (header_bytes bo h)
         \<and> \<not> of_fail out"
  using assms(1) unfolding build_def h0_def o0_def Let_def
  by (auto split: if_splits option.splits sum.splits prod.splits)


lemma build_layout:
  assumes "build bo H Z fs b p = Some (Inr (h, dir), out)"
  shows "\<exists>blob. of_content out = header_bytes bo h @ blob"
    and "24 \<le> unat (directory_offset h)"
    and "\<forall>e \<in> set dir. 24 \<le> unat (data_offset e)
           \<and> unat (data_offset e) + unat (compressed_size e) \<le> unat (directory_offset h)"
    and "length dir = length (files b)"
    and "magic h = MAGIC_NUMBER \<and> version h = FORMAT_VERSION
           \<and> directory_count h = of_nat (length (files b)) \<and> reserved h = 0"
proof -
  define h0 where "h0 = \<lparr>magic = MAGIC_NUMBER, version = FORMAT_VERSION, directory_offset = 0,
                  directory_count = of_nat (length (files b)), reserved = 0\<rparr>"
  define o0 where "o0 = ofstream_write fs (ofstream_open fs p) (header_bytes bo h0)"
  from build_success[OF assms, folded h0_def, folded o0_def]
  obtain out1 out2 off where
    open_ok: "\<not> of_fail (ofstream_open fs p)" and o0_ok: "\<not> of_fail o0"
    and wf: "write_files H Z fs (files b) o0 [] 24 = Some (Inr (dir, off), out1)"
    and h: "h = h0\<lparr>directory_offset := of_int (ofstream_tellp out1)\<rparr>"
    and wd: "write_directory bo fs dir out1 = (Inr (), out2)"
    and out: "out = ofstream_write fs (ofstream_seekp out2 0) (header_bytes bo h)"
    and out_ok: "\<not> of_fail out"
    by blast
  have o0: "o0 = \<lparr>of_content = header_bytes bo h0, of_pos = 24, of_fail = False\<rparr>"
    using o0_ok unfolding o0_def by (auto simp: ofstream_write_def ofstream_open_def split: if_splits)
  have o0p: "of_pos o0 = length (of_content o0)" "of_pos o0 < 2 ^ 63" "(24 :: 64 word) = of_nat (of_pos o0)"
    by (simp_all add: o0)
  from write_files_layout[OF wf o0p(1) o0_ok o0p(2) o0p(3)]
  obtain new where L: "\<not> of_fail out1" "of_pos out1 < 2 ^ 63" "of_pos o0 \<le> of_pos out1"
    "dir = [] @ new" "length new = length (files b)"
    "\<forall>e \<in> set new. of_pos o0 \<le> unat (data_offset e)
         \<and> unat (data_offset e) + unat (compressed_size e) \<le> of_pos out1"
    by blast
  have doff: "unat (directory_offset h) = of_pos out1"
    using L(1,2) by (simp add: h ofstream_tellp_def unat_of_nat_64)
  show "24 \<le> unat (directory_offset h)" using doff L(3) by (simp add: o0)
  show "\<forall>e \<in> set dir. 24 \<le> unat (data_offset e)
           \<and> unat (data_offset e) + unat (compressed_size e) \<le> unat (directory_offset h)"
    using L(4,6) doff by (simp add: o0)
  show "length dir = length (files b)" using L(4,5) by simp
  show "magic h = MAGIC_NUMBER \<and> version h = FORMAT_VERSION
           \<and> directory_count h = of_nat (length (files b)) \<and> reserved h = 0"
    by (simp add: h h0_def)
  from write_files_content[OF wf o0p(1)]
  obtain blob1 where c1: "of_content out1 = of_content o0 @ blob1" "of_pos out1 = length (of_content out1)"
    by blast
  from write_directory_content[OF wd c1(2)]
  obtain blob2 where c2: "of_content out2 = of_content out1 @ blob2"
    by blast
  have "of_content out = header_bytes bo h @ blob1 @ blob2"
    using out_ok unfolding out
    by (auto simp: ofstream_write_def ofstream_seekp_def c2 c1 o0 split: if_splits)
  then show "\<exists>blob. of_content out = header_bytes bo h @ blob" by blast
qed

text \<open>
  Claim C4, as amended. A container that \<open>build\<close> has written successfully begins with
  the four bytes of the 32-bit value \<open>MAGIC_NUMBER\<close> in the byte order of the host:
  \<^verbatim>\<open>46 4B 41 50\<close> on a little-endian host, \<^verbatim>\<open>50 41 4B 46\<close> on a big-endian one.
\<close>
theorem build_magic_host_order:
  assumes "build bo H Z fs b p = Some (Inr (h, dir), out)"
  shows "take 4 (of_content out) = u32_bytes bo MAGIC_NUMBER
       \<and> take 4 (of_content out) =
           (case bo of little_endian \<Rightarrow> [0x46, 0x4B, 0x41, 0x50]
                     | big_endian \<Rightarrow> [0x50, 0x41, 0x4B, 0x46])"
proof -
  from build_layout(1,5)[OF assms]
  obtain blob where "of_content out = header_bytes bo h @ blob" and "magic h = MAGIC_NUMBER"
    by blast
  then have "take 4 (of_content out) = u32_bytes bo MAGIC_NUMBER"
    by (simp add: header_bytes_def)
  then show ?thesis by (simp add: magic_bytes)
qed

text \<open>
  Claim C6. When \<open>build\<close> succeeds, the header at the start of the file is the header
  it returns, its \<open>directory_offset\<close> is at least 24, and every directory entry written
  satisfies \<open>data_offset + compressed_size \<le> directory_offset\<close> (as natural numbers, so
  without wrap-around).
\<close>
theorem build_entries_before_directory:
  assumes "build bo H Z fs b p = Some (Inr (h, dir), out)"
  shows "header_of bo (take 24 (of_content out)) = h
       \<and> 24 \<le> unat (directory_offset h)
       \<and> (\<forall>e \<in> set dir.
             unat (data_offset e) + unat (compressed_size e) \<le> unat (directory_offset h))"
proof -
  from build_layout(1)[OF assms]
  obtain blob where "of_content out = header_bytes bo h @ blob" by blast
  then have "header_of bo (take 24 (of_content out)) = h"
    using header_roundtrip[of bo h "[]"] by simp
  then show ?thesis using build_layout(2,3)[OF assms] by simp
qed

subsection \<open>Properties of the virtual file system\<close>

lemma read_all_ctor: "read_all (vfstream_ctor d) = Some (d, vfstream_ctor d)"
  by (cases "d = []")
     (simp_all add: read_all_def vfstream_ctor_def seekg_def tellg_def seekoff_def vfstream_read_def
       xsgetn_def zero_bytes_def Let_def)

lemma archive_open_fresh:
  "archive_open H Z a name = Some (Inr s, a') \<Longrightarrow> \<exists>d. s = vfstream_ctor d"
  by (auto simp: archive_open_def split: option.splits sum.splits prod.splits if_splits)

lemma vfs_open_cached:
  "cache_enabled v \<Longrightarrow> fmlookup (cache v) name = Some d \<Longrightarrow>
     vfs_open H Z v name = Some (Inr (vfstream_ctor d), v)"
  by (simp add: vfs_open_def)

lemma open_first_skip:
  "\<forall>x \<in> set pre. \<not> archive_contains x name \<Longrightarrow>
     open_first H Z name (pre @ rest) =
       map_option (\<lambda>(r, rest'). (r, pre @ rest')) (open_first H Z name rest)"
proof (induction pre)
  case Nil
  then show ?case by (cases "open_first H Z name rest") auto
next
  case (Cons a pre)
  then show ?case by (cases "open_first H Z name rest") auto
qed



lemma open_first_failed_head:
  "archive_contains a name \<Longrightarrow> archive_open H Z a name = Some (Inl err, a') \<Longrightarrow>
     open_first H Z name (a # post) =
       map_option (\<lambda>(r, rest'). (r, a' # rest')) (open_first H Z name post)"
  by simp


lemma vfs_open_miss:
  assumes "\<not> cache_enabled v \<or> fmlookup (cache v) name = None"
  shows "map_option fst (vfs_open H Z v name) =
    (case open_first H Z name (search_list v) of
      None \<Rightarrow> None
    | Some (r, t) \<Rightarrow>
        (case r of
          None \<Rightarrow> Some (Inl vfs_file_not_found)
        | Some strm \<Rightarrow>
            if cache_enabled v then map_option (\<lambda>(d, s'). Inr s') (read_all strm)
            else Some (Inr strm)))"
proof -
  have m: "(if cache_enabled v then fmlookup (cache v) name else None) = None"
    using assms by auto
  show ?thesis
    unfolding vfs_open_def m
    by (auto simp: Let_def split: option.splits)
qed

text \<open>
  Claim C3, as amended. When the first archive in search order that contains \<open>name\<close>
  fails to open it, \<open>vfs_open\<close> goes on with the archives after it: it returns exactly
  what a VFS made of those lower-precedence archives returns, that is, the stream of the
  next archive that contains \<open>name\<close> and opens it, and \<open>vfs_file_not_found\<close> when there
  is none.
\<close>
theorem vfs_open_falls_through:
  assumes order: "search_list v = pre @ a # post"
    and pre: "\<forall>x \<in> set pre. \<not> archive_contains x name"
    and has: "archive_contains a name"
    and fails: "archive_open H Z a name = Some (Inl err, a')"
    and miss: "\<not> cache_enabled v \<or> fmlookup (cache v) name = None"
  shows "map_option fst (vfs_open H Z v name) =
         map_option fst (vfs_open H Z
           (v\<lparr>archives := (if search_order v = reverse_mount_order then rev post else post)\<rparr>) name)"
proof -
  define w where "w = v\<lparr>archives := (if search_order v = reverse_mount_order then rev post else post)\<rparr>"
  have sl: "search_list w = post" by (simp add: search_list_def w_def)
  have ce: "cache_enabled w = cache_enabled v" "cache w = cache v" by (simp_all add: w_def)
  have miss_w: "\<not> cache_enabled w \<or> fmlookup (cache w) name = None"
    using miss by (simp add: ce)
  have of1: "open_first H Z name (search_list v) =
      map_option (\<lambda>(r, rest'). (r, pre @ a' # rest')) (open_first H Z name post)"
    unfolding order open_first_skip[OF pre] open_first_failed_head[OF has fails]
    by (cases "open_first H Z name post") auto
  have "map_option fst (vfs_open H Z v name) = map_option fst (vfs_open H Z w name)"
    unfolding vfs_open_miss[OF miss] vfs_open_miss[OF miss_w] sl of1 ce
    by (cases "open_first H Z name post") auto
  then show ?thesis by (simp add: w_def)
qed

lemma open_first_fresh:
  "open_first H Z name as = Some (Some strm, t) \<Longrightarrow> \<exists>d. strm = vfstream_ctor d"
proof (induction as arbitrary: t)
  case Nil
  then show ?case by simp
next
  case (Cons a as)
  show ?case
  proof (cases "archive_contains a name")
    case True
    then show ?thesis using Cons archive_open_fresh[of H Z a name strm]
      by (auto split: option.splits sum.splits prod.splits)
  next
    case False
    then show ?thesis using Cons by auto
  qed
qed

lemma cache_size_fmupd_new:
  "fmlookup c name = None \<Longrightarrow> fcard (finsert name (fmdom c)) = Suc (fcard (fmdom c))"
  by (simp add: fcard_finsert_disjoint fmdom_notI)

text \<open>
  Claim C7, as amended. With caching enabled and \<open>name\<close> not yet cached, a successful
  \<open>vfs_open\<close> makes \<open>cache_size\<close> strictly larger and stores the stream's bytes under
  \<open>name\<close>; a second \<open>vfs_open\<close> returns a stream over these bytes and leaves the whole
  VFS, every archive included, as it was; and the stored bytes are what a fresh open with
  an empty cache produces on the VFS as it was when the entry was stored. (An entry is
  not refreshed by \<open>set_search_order\<close> or a later mount.)
\<close>
theorem vfs_open_fills_cache:
  assumes on: "cache_enabled v"
    and first: "fmlookup (cache v) name = None"
    and opened: "vfs_open H Z v name = Some (Inr s, v')"
  shows "cache_size v < cache_size v'
       \<and> fmlookup (cache v') name = Some (data s)
       \<and> s = vfstream_ctor (data s)
       \<and> vfs_open H Z v' name = Some (Inr (vfstream_ctor (data s)), v')
       \<and> map_option fst (vfs_open H Z (v\<lparr>cache := fmempty\<rparr>) name) = Some (Inr s)"
proof -
  obtain r tried where of1: "open_first H Z name (search_list v) = Some (r, tried)"
    using opened on first by (auto simp: vfs_open_def split: option.splits)
  obtain strm where r: "r = Some strm"
    using opened on first of1 by (cases r) (auto simp: vfs_open_def)
  obtain d where strm: "strm = vfstream_ctor d"
    using open_first_fresh of1 r by blast
  have ra: "read_all strm = Some (d, strm)"
    by (simp add: strm read_all_ctor)
  have s: "s = vfstream_ctor d"
    and v': "v' = v\<lparr>archives := (if search_order v = reverse_mount_order then rev tried else tried),
                   cache := fmupd name d (cache v)\<rparr>"
    using opened on first of1 r ra strm by (auto simp: vfs_open_def)
  have d: "data s = d" by (simp add: s vfstream_ctor_def)
  have 1: "cache_size v < cache_size v'"
    by (simp add: cache_size_def v' cache_size_fmupd_new[OF first])
  have 2: "fmlookup (cache v') name = Some (data s)"
    by (simp add: v' d)
  have 3: "vfs_open H Z v' name = Some (Inr (vfstream_ctor (data s)), v')"
    using vfs_open_cached[of v' name "data s" H Z] 2 on by (simp add: v')
  have sl: "search_list (v\<lparr>cache := fmempty\<rparr>) = search_list v"
    by (simp add: search_list_def)
  have 4: "map_option fst (vfs_open H Z (v\<lparr>cache := fmempty\<rparr>) name) = Some (Inr s)"
    by (subst vfs_open_miss) (simp_all add: sl of1 r read_all_ctor on s strm)
  show ?thesis using 1 2 3 4 s d by simp
qed

lemma vfs_open_cache_disabled:
  "\<not> cache_enabled v \<Longrightarrow> vfs_open H Z v name = Some (r, v') \<Longrightarrow>
     cache v' = cache v \<and> cache_enabled v' = cache_enabled v \<and> search_order v' = search_order v"
  by (auto simp: vfs_open_def Let_def split: option.splits)

text \<open>
  Claim C10. \<open>enable_cache v False\<close> changes the \<open>cache_enabled\<close> flag only: the cache
  map, \<open>cache_size\<close>, the archives and the search order are unchanged; an open while
  the cache is disabled leaves the cache map alone; and after \<open>enable_cache \<dots> True\<close>
  every entry cached before is served again by \<open>vfs_open\<close> (from the cache, without a
  change of state) and by \<open>vfs_contains\<close>.
\<close>

theorem enable_cache_false_keeps_entries:
  "enable_cache v False = v\<lparr>cache_enabled := False\<rparr>
   \<and> cache (enable_cache v False) = cache v
   \<and> cache_size (enable_cache v False) = cache_size v
   \<and> archives (enable_cache v False) = archives v
   \<and> search_order (enable_cache v False) = search_order v
   \<and> (\<forall>name r v'. vfs_open H Z (enable_cache v False) name = Some (r, v') \<longrightarrow> cache v' = cache v)
   \<and> enable_cache (enable_cache v False) True = v\<lparr>cache_enabled := True\<rparr>
   \<and> (\<forall>name d. fmlookup (cache v) name = Some d \<longrightarrow>
         vfs_open H Z (enable_cache (enable_cache v False) True) name
           = Some (Inr (vfstream_ctor d), enable_cache (enable_cache v False) True)
         \<and> vfs_contains (enable_cache (enable_cache v False) True) name)"
proof -
  have "\<forall>name r v'. vfs_open H Z (enable_cache v False) name = Some (r, v') \<longrightarrow> cache v' = cache v"
    using vfs_open_cache_disabled[of "enable_cache v False" H Z]
    by (auto simp: enable_cache_def)
  then show ?thesis
    by (simp add: enable_cache_def cache_size_def vfs_open_def vfs_contains_def)
qed


subsection \<open>Properties of the directory loader\<close>

lemma u8_roundtrip [simp]: "(of_nat (object_value bo [c]) :: 8 word) = c"
  by (cases bo) (auto simp: object_value_def)
lemma char_byte_roundtrip [simp]: "char_of_byte (byte_of_char c) = c"
proof -
  have "(of_char c :: nat) < 256" by simp
  then have "unat (of_nat (of_char c) :: 8 word) = of_char c"
    by (simp add: unat_of_nat)
  then show ?thesis by (simp add: char_of_byte_def byte_of_char_def)
qed
lemma name_roundtrip [simp]: "map char_of_byte (map byte_of_char s) = s"
  by (induction s) auto

lemma length_raw_entry_bytes:
  "length (raw_entry_bytes bo (len, e)) = 4 + length (filename e) + 25"
  by (simp add: raw_entry_bytes_def)

lemma mem_read_at:
  "unat pos = length pre \<Longrightarrow> n = length a \<Longrightarrow> mem_read (pre @ a @ rest) pos n = Some a"
  by (simp add: mem_read_def)

lemma memory_entry_at:
  assumes mem: "mem = pre @ raw_entry_bytes bo (len, e) @ post"
    and framed: "length (filename e) = unat len"
    and small: "length mem < 2 ^ 63"
  shows "memory_entry bo mem (of_nat (length pre)) =
           Some (Inr (\<lparr>filename = (if 0 < len \<and> len < 4096 then filename e else []),
                       data_offset = data_offset e, compressed_size = compressed_size e,
                       uncompressed_size = uncompressed_size e, compression = compression e\<rparr>,
                      of_nat (length (pre @ raw_entry_bytes bo (len, e)))))"
proof -
  define P where "P = length pre"
  define N where "N = map byte_of_char (filename e)"
  define tail where "tail = u64_bytes bo (data_offset e)
         @ u64_bytes bo (compressed_size e) @ u64_bytes bo (uncompressed_size e) @ [compression e] @ post"
  have lenN: "length N = unat len" by (simp add: N_def framed)
  have m0: "mem = pre @ u32_bytes bo len @ (N @ tail)"
    by (simp add: mem raw_entry_bytes_def N_def tail_def)
  have total: "P + 4 + unat len + 25 \<le> length mem"
    by (simp add: m0 P_def lenN tail_def)
  have u: "\<And>k. k \<le> length mem \<Longrightarrow> unat (of_nat k :: 64 word) = k"
    using small by (simp add: unat_of_nat_64)
  have p4: "(of_nat P :: 64 word) + 4 = of_nat (P + 4)" by simp
  have pl: "(of_nat (P + 4) :: 64 word) + ucast len = of_nat (P + 4 + unat len)"
    by simp
  have p25: "(of_nat (P + 4 + unat len) :: 64 word) + 25 = of_nat (P + 4 + unat len + 25)" by simp
  have p8: "(of_nat (P + 4 + unat len) :: 64 word) + 8 = of_nat (P + 4 + unat len + 8)" by simp
  have p16: "(of_nat (P + 4 + unat len) :: 64 word) + 16 = of_nat (P + 4 + unat len + 16)" by simp
  have p24: "(of_nat (P + 4 + unat len) :: 64 word) + 24 = of_nat (P + 4 + unat len + 24)" by simp
  have r0: "mem_read mem (of_nat P) 4 = Some (u32_bytes bo len)"
    unfolding m0 by (rule mem_read_at) (use u[of P] total in \<open>simp_all add: P_def\<close>)
  have m1: "mem = (pre @ u32_bytes bo len) @ N @ tail" by (simp add: m0)
  have r1: "mem_read mem (of_nat (P + 4)) (unat len) = Some N"
    unfolding m1 by (rule mem_read_at) (use u[of "P + 4"] total lenN in \<open>simp_all add: P_def\<close>)
  have m2: "mem = (pre @ u32_bytes bo len @ N) @ u64_bytes bo (data_offset e) @
         (u64_bytes bo (compressed_size e) @ u64_bytes bo (uncompressed_size e) @ [compression e] @ post)"
    by (simp add: m0 tail_def)
  have r2: "mem_read mem (of_nat (P + 4 + unat len)) 8 = Some (u64_bytes bo (data_offset e))"
    unfolding m2 by (rule mem_read_at) (use u[of "P + 4 + unat len"] total lenN in \<open>simp_all add: P_def\<close>)
  have m3: "mem = (pre @ u32_bytes bo len @ N @ u64_bytes bo (data_offset e)) @ u64_bytes bo (compressed_size e) @
         (u64_bytes bo (uncompressed_size e) @ [compression e] @ post)"
    by (simp add: m0 tail_def)
  have r3: "mem_read mem (of_nat (P + 4 + unat len + 8)) 8 = Some (u64_bytes bo (compressed_size e))"
    unfolding m3 by (rule mem_read_at) (use u[of "P + 4 + unat len + 8"] total lenN in \<open>simp_all add: P_def\<close>)
  have m4: "mem = (pre @ u32_bytes bo len @ N @ u64_bytes bo (data_offset e) @ u64_bytes bo (compressed_size e)) @
         u64_bytes bo (uncompressed_size e) @ ([compression e] @ post)"
    by (simp add: m0 tail_def)
  have r4: "mem_read mem (of_nat (P + 4 + unat len + 16)) 8 = Some (u64_bytes bo (uncompressed_size e))"
    unfolding m4 by (rule mem_read_at) (use u[of "P + 4 + unat len + 16"] total lenN in \<open>simp_all add: P_def\<close>)
  have m5: "mem = (pre @ u32_bytes bo len @ N @ u64_bytes bo (data_offset e) @ u64_bytes bo (compressed_size e) @
         u64_bytes bo (uncompressed_size e)) @ [compression e] @ post"
    by (simp add: m0 tail_def)
  have r5: "mem_read mem (of_nat (P + 4 + unat len + 24)) 1 = Some [compression e]"
    unfolding m5 by (rule mem_read_at) (use u[of "P + 4 + unat len + 24"] total lenN in \<open>simp_all add: P_def\<close>)
  have c1: "\<not> length mem < unat (of_nat (P + 4) :: 64 word)"
    using u[of "P + 4"] total by simp
  have c2: "\<not> length mem < unat (of_nat (P + 4 + unat len) :: 64 word)"
    using u[of "P + 4 + unat len"] total by simp
  have c3: "\<not> length mem < unat (of_nat (P + 4 + unat len + 25) :: 64 word)"
    using u[of "P + 4 + unat len + 25"] total by simp
  have fin: "length (pre @ raw_entry_bytes bo (len, e)) = P + 4 + unat len + 25"
    by (simp add: length_raw_entry_bytes framed P_def)
  show ?thesis
    unfolding memory_entry_def P_def[symmetric] fin
    apply (simp only: p4 pl p25 p8 p16 p24 c1 c2 c3 r0 r1 r2 r3 r4 r5 Let_def if_False option.case
          u32_roundtrip u64_roundtrip u8_roundtrip N_def name_roundtrip option.map prod.case
          split: if_splits)
    apply auto
    done
qed


lemma insert_entry_kept:
  assumes "length (filename e) = unat len"
  shows "insert_entry \<lparr>filename = (if 0 < len \<and> len < 4096 then filename e else []),
                       data_offset = data_offset e, compressed_size = compressed_size e,
                       uncompressed_size = uncompressed_size e, compression = compression e\<rparr> a
         = a\<lparr>directory := (if 0 < len \<and> len < 4096 then fmupd (filename e) e (directory a)
                            else directory a)\<rparr>"
proof (cases e)
  case (fields f d c u m)
  show ?thesis
  proof (cases "0 < len \<and> len < 4096")
    case True
    then have "0 < unat len" by (simp add: word_less_nat_alt)
    then have "f \<noteq> []" using assms fields by auto
    then show ?thesis using True fields by (simp add: insert_entry_def)
  next
    case False
    then have "(0 < len \<and> len < 4096) = False" by simp
    then show ?thesis by (simp only: if_False insert_entry_def directory_entry.simps) simp
  qed
qed

lemma load_entries_memory:
  assumes "memory_data a = pre @ concat (map (raw_entry_bytes bo) es) @ post"
    and "mode a = memory"
    and "\<forall>(len, e) \<in> set es. length (filename e) = unat len"
    and "length (memory_data a) < 2 ^ 63"
  shows "load_entries bo (length es) a (of_nat (length pre)) =
           Some (Inr (a\<lparr>directory := kept_entries es (directory a)\<rparr>))"
  using assms
proof (induction es arbitrary: a pre)
  case Nil
  then show ?case by simp
next
  case (Cons le es)
  obtain len e where le: "le = (len, e)" by (cases le)
  have framed: "length (filename e) = unat len" using Cons.prems(3) le by simp
  have mem: "memory_data a = pre @ raw_entry_bytes bo (len, e) @ (concat (map (raw_entry_bytes bo) es) @ post)"
    using Cons.prems(1) le by simp
  note step = memory_entry_at[OF mem framed Cons.prems(4)]
  let ?a1 = "a\<lparr>directory := (if 0 < len \<and> len < 4096 then fmupd (filename e) e (directory a)
                            else directory a)\<rparr>"
  have mem1: "memory_data ?a1 = (pre @ raw_entry_bytes bo (len, e)) @ concat (map (raw_entry_bytes bo) es) @ post"
    using mem by simp
  have IH: "load_entries bo (length es) ?a1 (of_nat (length (pre @ raw_entry_bytes bo (len, e)))) =
           Some (Inr (?a1\<lparr>directory := kept_entries es (directory ?a1)\<rparr>))"
    by (rule Cons.IH[OF mem1]) (use Cons.prems in auto)
  have "mode a \<noteq> disk" using Cons.prems(2) by simp
  then show ?case
    using step IH by (simp add: le insert_entry_kept[OF framed])
qed


lemma sint_of_nat_64: "n < 2 ^ 63 \<Longrightarrow> sint (of_nat n :: 64 word) = int n"
  by (simp add: signed_of_nat signed_take_bit_int_eq_self)

lemma ifstream_seekg_good:
  "n < 2 ^ 63 \<Longrightarrow>
     ifstream_seekg \<lparr>if_open = True, if_content = c, if_pos = q, if_fail = False\<rparr> (of_nat n)
       = \<lparr>if_open = True, if_content = c, if_pos = n, if_fail = False\<rparr>"
  by (simp add: ifstream_seekg_def sint_of_nat_64 unat_of_nat_64)

lemma ifstream_read_good:
  "q + n \<le> length c \<Longrightarrow>
     ifstream_read \<lparr>if_open = True, if_content = c, if_pos = q, if_fail = False\<rparr> n (zero_bytes n)
       = (take n (drop q c), n, \<lparr>if_open = True, if_content = c, if_pos = q + n, if_fail = False\<rparr>)"
  by (simp add: ifstream_read_def zero_bytes_def Let_def min_def)

lemma slice_at: "n = length a \<Longrightarrow> q = length pre \<Longrightarrow> take n (drop q (pre @ a @ rest)) = a"
  by simp

lemma disk_entry_at:
  assumes c: "c = pre @ raw_entry_bytes bo (len, e) @ post"
    and framed: "length (filename e) = unat len"
    and small: "length c < 2 ^ 63"
  shows "\<exists>e' q. disk_entry bo \<lparr>if_open = True, if_content = c, if_pos = q0, if_fail = False\<rparr>
                  (of_nat (length pre))
               = (e', len, \<lparr>if_open = True, if_content = c, if_pos = q, if_fail = False\<rparr>)
             \<and> e' = \<lparr>filename = (if 0 < len \<and> len < 4096 then filename e else []),
                      data_offset = data_offset e', compressed_size = compressed_size e',
                      uncompressed_size = uncompressed_size e', compression = compression e'\<rparr>
             \<and> (0 < len \<and> len < 4096 \<longrightarrow> e' = e)"
proof -
  define P where "P = length pre"
  define S where "S = (\<lambda>q. \<lparr>if_open = True, if_content = c, if_pos = q, if_fail = False\<rparr>)"
  define N where "N = map byte_of_char (filename e)"
  define tail where "tail = u64_bytes bo (data_offset e)
         @ u64_bytes bo (compressed_size e) @ u64_bytes bo (uncompressed_size e) @ [compression e] @ post"
  have lenN: "length N = unat len" by (simp add: N_def framed)
  have m0: "c = pre @ u32_bytes bo len @ (N @ tail)"
    by (simp add: c raw_entry_bytes_def N_def tail_def)
  have total: "P + 4 + unat len + 25 \<le> length c"
    by (simp add: m0 P_def lenN tail_def)
  have sk: "ifstream_seekg (S q0) (of_nat P) = S P"
    unfolding S_def by (rule ifstream_seekg_good) (use total small in simp)
  have rd: "\<And>q n. q + n \<le> length c \<Longrightarrow>
      ifstream_read (S q) n (zero_bytes n) = (take n (drop q c), n, S (q + n))"
    unfolding S_def by (rule ifstream_read_good)
  have s0: "take (4) (drop (P) c) = u32_bytes bo len"
      unfolding m0 by (rule slice_at) (simp_all add: lenN P_def)
    have le0: "P + 4 \<le> length c" using total by simp
    have r0: "ifstream_read (S P) 4 (zero_bytes 4) = (u32_bytes bo len, 4, S (P + 4))"
      by (rule rd[OF le0, unfolded s0])
  show ?thesis
  proof (cases "0 < len \<and> len < 4096")
    case True
    have m1: "c = (pre @ u32_bytes bo len) @ N @ tail" by (simp add: m0)
    have s1: "take (unat len) (drop (P + 4) c) = N"
      unfolding m1 by (rule slice_at) (simp_all add: lenN P_def)
    have le1: "P + 4 + unat len \<le> length c" using total by simp
    have r1: "ifstream_read (S (P + 4)) (unat len) (zero_bytes (unat len)) = (N, unat len, S (P + 4 + unat len))"
      by (rule rd[OF le1, unfolded s1])
    have m2: "c = (pre @ u32_bytes bo len @ N) @ u64_bytes bo (data_offset e) @
         (u64_bytes bo (compressed_size e) @ u64_bytes bo (uncompressed_size e) @ [compression e] @ post)"
      by (simp add: m0 tail_def)
    have s2: "take (8) (drop (P + 4 + unat len) c) = u64_bytes bo (data_offset e)"
      unfolding m2 by (rule slice_at) (simp_all add: lenN P_def)
    have le2: "P + 4 + unat len + 8 \<le> length c" using total by simp
    have r2: "ifstream_read (S (P + 4 + unat len)) 8 (zero_bytes 8)
                = (u64_bytes bo (data_offset e), 8, S (P + 4 + unat len + 8))"
      by (rule rd[OF le2, unfolded s2])
    have m3: "c = (pre @ u32_bytes bo len @ N @ u64_bytes bo (data_offset e)) @ u64_bytes bo (compressed_size e) @
         (u64_bytes bo (uncompressed_size e) @ [compression e] @ post)"
      by (simp add: m0 tail_def)
    have s3: "take (8) (drop (P + 4 + unat len + 8) c) = u64_bytes bo (compressed_size e)"
      unfolding m3 by (rule slice_at) (simp_all add: lenN P_def)
    have le3: "P + 4 + unat len + 8 + 8 \<le> length c" using total by simp
    have r3: "ifstream_read (S (P + 4 + unat len + 8)) 8 (zero_bytes 8)
                = (u64_bytes bo (compressed_size e), 8, S (P + 4 + unat len + 8 + 8))"
      by (rule rd[OF le3, unfolded s3])
    have m4: "c = (pre @ u32_bytes bo len @ N @ u64_bytes bo (data_offset e) @ u64_bytes bo (compressed_size e)) @
         u64_bytes bo (uncompressed_size e) @ ([compression e] @ post)"
      by (simp add: m0 tail_def)
    have s4: "take (8) (drop (P + 4 + unat len + 8 + 8) c) = u64_bytes bo (uncompressed_size e)"
      unfolding m4 by (rule slice_at) (simp_all add: lenN P_def)
    have le4: "P + 4 + unat len + 8 + 8 + 8 \<le> length c" using total by simp
    have r4: "ifstream_read (S (P + 4 + unat len + 8 + 8)) 8 (zero_bytes 8)
                = (u64_bytes bo (uncompressed_size e), 8, S (P + 4 + unat len + 8 + 8 + 8))"
      by (rule rd[OF le4, unfolded s4])
    have m5: "c = (pre @ u32_bytes bo len @ N @ u64_bytes bo (data_offset e) @ u64_bytes bo (compressed_size e) @
         u64_bytes bo (uncompressed_size e)) @ [compression e] @ post"
      by (simp add: m0 tail_def)
    have s5: "take (1) (drop (P + 4 + unat len + 8 + 8 + 8) c) = [compression e]"
      unfolding m5 by (rule slice_at) (simp_all add: lenN P_def)
    have le5: "P + 4 + unat len + 8 + 8 + 8 + 1 \<le> length c" using total by simp
    have r5: "ifstream_read (S (P + 4 + unat len + 8 + 8 + 8)) 1 (zero_bytes 1)
                = ([compression e], 1, S (P + 4 + unat len + 8 + 8 + 8 + 1))"
      by (rule rd[OF le5, unfolded s5])
    have eta: "\<lparr>filename = filename e, data_offset = data_offset e,
      compressed_size = compressed_size e, uncompressed_size = uncompressed_size e,
      compression = compression e\<rparr> = e"
      by (cases e) simp
    have "disk_entry bo (S q0) (of_nat P) = (e, len, S (P + 4 + unat len + 8 + 8 + 8 + 1))"
      unfolding disk_entry_def
      by (simp only: sk r0 r1 r2 r3 r4 r5 Let_def prod.case u32_roundtrip u64_roundtrip u8_roundtrip
            True if_True simp_thms N_def name_roundtrip eta)
    then show ?thesis using True eta
      unfolding S_def P_def by (intro exI[of _ e] exI[of _ "length pre + 4 + unat len + 8 + 8 + 8 + 1"]) simp
  next
    case False
    have enough: "P + 4 + 25 \<le> length c"
      using total by simp
    have le2: "P + 4 + 8 \<le> length c" using enough by simp
    obtain b1 where r2: "ifstream_read (S (P + 4)) 8 (zero_bytes 8) = (b1, 8, S (P + 4 + 8))"
      using rd[OF le2] by blast
    have le3: "P + 4 + 8 + 8 \<le> length c" using enough by simp
    obtain b2 where r3: "ifstream_read (S (P + 4 + 8)) 8 (zero_bytes 8) = (b2, 8, S (P + 4 + 8 + 8))"
      using rd[OF le3] by blast
    have le4: "P + 4 + 8 + 8 + 8 \<le> length c" using enough by simp
    obtain b3 where r4: "ifstream_read (S (P + 4 + 8 + 8)) 8 (zero_bytes 8) = (b3, 8, S (P + 4 + 8 + 8 + 8))"
      using rd[OF le4] by blast
    have le5: "P + 4 + 8 + 8 + 8 + 1 \<le> length c" using enough by simp
    obtain b4 where r5: "ifstream_read (S (P + 4 + 8 + 8 + 8)) 1 (zero_bytes 1) = (b4, 1, S (P + 4 + 8 + 8 + 8 + 1))"
      using rd[OF le5] by blast
    have "disk_entry bo (S q0) (of_nat P) =
        (\<lparr>filename = [], data_offset = u64_of bo b1, compressed_size = u64_of bo b2,
          uncompressed_size = u64_of bo b3, compression = of_nat (object_value bo b4)\<rparr>,
         len, S (P + 4 + 8 + 8 + 8 + 1))"
      unfolding disk_entry_def
      by (simp only: sk r0 r2 r3 r4 r5 Let_def prod.case u32_roundtrip False if_False simp_thms)
    then show ?thesis using False
      unfolding S_def P_def
      by (intro exI[of _ "\<lparr>filename = [], data_offset = u64_of bo b1, compressed_size = u64_of bo b2,
          uncompressed_size = u64_of bo b3, compression = of_nat (object_value bo b4)\<rparr>"]
          exI[of _ "length pre + 4 + 8 + 8 + 8 + 1"]) auto
  qed
qed


lemma load_entries_disk:
  assumes "c = pre @ concat (map (raw_entry_bytes bo) es) @ post"
    and "mode a = disk"
    and "file_stream a = \<lparr>if_open = True, if_content = c, if_pos = q0, if_fail = False\<rparr>"
    and "\<forall>(len, e) \<in> set es. length (filename e) = unat len"
    and "length c < 2 ^ 63"
  shows "\<exists>q. load_entries bo (length es) a (of_nat (length pre)) =
           Some (Inr (a\<lparr>file_stream := \<lparr>if_open = True, if_content = c, if_pos = q, if_fail = False\<rparr>,
                        directory := kept_entries es (directory a)\<rparr>))"
  using assms
proof (induction es arbitrary: a pre q0)
  case Nil
  have "a = a\<lparr>file_stream := \<lparr>if_open = True, if_content = c, if_pos = q0, if_fail = False\<rparr>,
              directory := directory a\<rparr>"
    using Nil.prems(3) by simp
  then show ?case by auto
next
  case (Cons le es)
  obtain len e where le: "le = (len, e)" by (cases le)
  have framed: "length (filename e) = unat len" using Cons.prems(4) le by simp
  have c: "c = pre @ raw_entry_bytes bo (len, e) @ (concat (map (raw_entry_bytes bo) es) @ post)"
    using Cons.prems(1) le by simp
  from disk_entry_at[OF c framed Cons.prems(5), of q0]
  obtain e' q where step: "disk_entry bo (file_stream a) (of_nat (length pre))
               = (e', len, \<lparr>if_open = True, if_content = c, if_pos = q, if_fail = False\<rparr>)"
    and shape: "e' = \<lparr>filename = (if 0 < len \<and> len < 4096 then filename e else []),
                      data_offset = data_offset e', compressed_size = compressed_size e',
                      uncompressed_size = uncompressed_size e', compression = compression e'\<rparr>"
    and valid: "0 < len \<and> len < 4096 \<longrightarrow> e' = e"
    unfolding Cons.prems(3) by blast
  let ?s = "\<lparr>if_open = True, if_content = c, if_pos = q, if_fail = False\<rparr>"
  let ?a1 = "a\<lparr>file_stream := ?s,
               directory := (if 0 < len \<and> len < 4096 then fmupd (filename e) e (directory a)
                             else directory a)\<rparr>"
  have ins: "insert_entry e' (a\<lparr>file_stream := ?s\<rparr>) = ?a1"
  proof (cases "0 < len \<and> len < 4096")
    case True
    then have "e' = e" using valid by simp
    moreover have "0 < unat len" using True by (simp add: word_less_nat_alt)
    then have "filename e \<noteq> []" using framed by auto
    ultimately show ?thesis using True by (simp add: insert_entry_def)
  next
    case False
    from arg_cong[OF shape, where f = filename] False
    have "filename e' = []" by (simp only: directory_entry.select_convs if_False)
    then have "insert_entry e' (a\<lparr>file_stream := ?s\<rparr>) = a\<lparr>file_stream := ?s\<rparr>"
      by (simp add: insert_entry_def)
    moreover have "?a1 = a\<lparr>file_stream := ?s\<rparr>"
      using False by (cases a) auto
    ultimately show ?thesis by simp
  qed
  have pos: "(of_nat (length pre) :: 64 word) + (4 + ucast len + 8 + 8 + 8 + 1)
               = of_nat (length (pre @ raw_entry_bytes bo (len, e)))"
    by (simp add: length_raw_entry_bytes framed)
  have c1: "c = (pre @ raw_entry_bytes bo (len, e)) @ concat (map (raw_entry_bytes bo) es) @ post"
    using c by simp
  have "\<exists>q'. load_entries bo (length es) ?a1 (of_nat (length (pre @ raw_entry_bytes bo (len, e)))) =
           Some (Inr (?a1\<lparr>file_stream := \<lparr>if_open = True, if_content = c, if_pos = q', if_fail = False\<rparr>,
                        directory := kept_entries es (directory ?a1)\<rparr>))"
    by (rule Cons.IH[OF c1, of ?a1 q]) (use Cons.prems in auto)
  then obtain q' where IH: "load_entries bo (length es) ?a1 (of_nat (length (pre @ raw_entry_bytes bo (len, e)))) =
           Some (Inr (?a1\<lparr>file_stream := \<lparr>if_open = True, if_content = c, if_pos = q', if_fail = False\<rparr>,
                        directory := kept_entries es (directory ?a1)\<rparr>))"
    by blast
  have "load_entries bo (Suc (length es)) a (of_nat (length pre)) =
          load_entries bo (length es) ?a1 (of_nat (length (pre @ raw_entry_bytes bo (len, e))))"
    by (simp only: load_entries.simps Cons.prems(2) simp_thms if_True step prod.case ins pos)
  then have "load_entries bo (length (le # es)) a (of_nat (length pre)) =
           Some (Inr (a\<lparr>file_stream := \<lparr>if_open = True, if_content = c, if_pos = q', if_fail = False\<rparr>,
                        directory := kept_entries (le # es) (directory a)\<rparr>))"
    unfolding IH by (simp add: le)
  then show ?case by blast
qed


text \<open>
  Claim C5. A container whose directory region is a sequence of framed entries (each
  with as many name bytes as its length field declares) loads in memory mode and in disk
  mode alike: loading succeeds, every entry whose length field is 0 or at least 4096 is
  left out of the directory map, and all the others are read at their offsets and
  inserted, a later one replacing an earlier one of the same name.
\<close>
theorem load_directory_skips_malformed:
  assumes layout: "content = pre @ concat (map (raw_entry_bytes bo) es) @ post"
    and header: "header_of bo (take 24 content) =
                   \<lparr>magic = MAGIC_NUMBER, version = FORMAT_VERSION,
                    directory_offset = of_nat (length pre),
                    directory_count = of_nat (length es), reserved = r\<rparr>"
    and framed: "\<forall>(len, e) \<in> set es. length (filename e) = unat len"
    and sizes: "24 \<le> length content" "length content < 2 ^ 63" "length es < 2 ^ 32"
  shows "load_directory bo
           \<lparr>file_path = p, mode = memory, file_stream = ifstream_closed,
            memory_data = content, directory = d0\<rparr>
         = Some (Inr \<lparr>file_path = p, mode = memory, file_stream = ifstream_closed,
                      memory_data = content, directory = kept_entries es fmempty\<rparr>)
       \<and> (\<exists>q. load_directory bo
                 \<lparr>file_path = p, mode = disk,
                  file_stream = \<lparr>if_open = True, if_content = content, if_pos = q0, if_fail = False\<rparr>,
                  memory_data = [], directory = d0\<rparr>
               = Some (Inr \<lparr>file_path = p, mode = disk,
                            file_stream = \<lparr>if_open = True, if_content = content, if_pos = q,
                                           if_fail = False\<rparr>,
                            memory_data = [], directory = kept_entries es fmempty\<rparr>))"
proof -
  let ?h = "\<lparr>magic = MAGIC_NUMBER, version = FORMAT_VERSION,
                    directory_offset = of_nat (length pre),
                    directory_count = of_nat (length es), reserved = r\<rparr>"
  have n: "unat (of_nat (length es) :: 32 word) = length es"
    using sizes(3) by (simp add: unat_of_nat)
  let ?am = "\<lparr>file_path = p, mode = memory, file_stream = ifstream_closed,
            memory_data = content, directory = d0\<rparr>"
  have hm: "read_header bo ?am = Inr (?h, ?am)"
    using sizes(1) by (simp add: read_header_def header)
  have em: "load_entries bo (length es) (?am\<lparr>directory := fmempty\<rparr>) (of_nat (length pre)) =
           Some (Inr ((?am\<lparr>directory := fmempty\<rparr>)\<lparr>directory := kept_entries es (directory (?am\<lparr>directory := fmempty\<rparr>))\<rparr>))"
    by (rule load_entries_memory[where post = post]) (use layout framed sizes in auto)
  have mem: "load_directory bo ?am =
      Some (Inr \<lparr>file_path = p, mode = memory, file_stream = ifstream_closed,
                      memory_data = content, directory = kept_entries es fmempty\<rparr>)"
    unfolding load_directory_def hm using em by (simp add: n)
  let ?s = "\<lambda>q. \<lparr>if_open = True, if_content = content, if_pos = q, if_fail = False\<rparr>"
  let ?ad = "\<lambda>q. \<lparr>file_path = p, mode = disk, file_stream = ?s q, memory_data = [], directory = d0\<rparr>"
  have sk: "ifstream_seekg (?s q0) 0 = ?s 0"
    using ifstream_seekg_good[of 0 content q0] by simp
  have rd: "ifstream_read (?s 0) 24 (zero_bytes 24) = (take 24 content, 24, ?s 24)"
    using ifstream_read_good[of 0 24 content] sizes(1) by simp
  have hd: "read_header bo (?ad q0) = Inr (?h, ?ad 24)"
    by (simp add: read_header_def sk rd header)
  have "\<exists>q. load_entries bo (length es) ((?ad 24)\<lparr>directory := fmempty\<rparr>) (of_nat (length pre)) =
           Some (Inr (((?ad 24)\<lparr>directory := fmempty\<rparr>)\<lparr>file_stream := ?s q,
                        directory := kept_entries es (directory ((?ad 24)\<lparr>directory := fmempty\<rparr>))\<rparr>))"
    by (rule load_entries_disk[where post = post and ?q0.0 = 24]) (use layout framed sizes in auto)
  then obtain q where ed: "load_entries bo (length es) ((?ad 24)\<lparr>directory := fmempty\<rparr>) (of_nat (length pre)) =
           Some (Inr (((?ad 24)\<lparr>directory := fmempty\<rparr>)\<lparr>file_stream := ?s q,
                        directory := kept_entries es (directory ((?ad 24)\<lparr>directory := fmempty\<rparr>))\<rparr>))"
    by blast
  have "load_directory bo (?ad q0) =
      Some (Inr \<lparr>file_path = p, mode = disk, file_stream = ?s q,
                  memory_data = [], directory = kept_entries es fmempty\<rparr>)"
    unfolding load_directory_def hd using ed by (simp add: n)
  then show ?thesis using mem by blast
qed

subsection \<open>Properties of the codec\<close>

lemma z_call_no_input:
  assumes "avail_in s = 0" "avail_in s' = 0" "state s = state s'" "avail_out s = avail_out s'"
  shows "\<exists>ret out t t'. z_call f s fl = (ret, out, t) \<and> z_call f s' fl = (ret, out, t')
           \<and> avail_in t = 0 \<and> avail_in t' = 0 \<and> state t = state t'
           \<and> avail_out t = avail_out t'"
proof -
  obtain ret consumed produced st where
    r: "f (state s') [] (unat (avail_out s')) fl = (ret, consumed, produced, st)"
    by (cases "f (state s') [] (unat (avail_out s')) fl") auto
  show ?thesis
    using assms r by (simp add: z_call_def Let_def)
qed

lemma deflate_loop_no_input_aux:
  assumes "deflate_loop Z s acc = Some y"
  shows "\<forall>s' :: 'z z_stream. avail_in s = 0 \<and> avail_in s' = 0 \<and> state s = state s'
           \<longrightarrow> deflate_loop Z s' acc = Some y"
  using assms
proof (induction rule: deflate_loop.raw_induct[rotated 1, consumes 1, case_names step])
  case (step dl Z strm compressed y)
  show ?case
  proof (intro allI impI)
    fix s' :: "'z z_stream"
    assume a: "avail_in strm = 0 \<and> avail_in s' = 0 \<and> state strm = state s'"
    have "\<exists>ret out t t'. z_call (z_deflate Z) (strm\<lparr>avail_out := chunk_size\<rparr>) Z_FINISH = (ret, out, t)
           \<and> z_call (z_deflate Z) (s'\<lparr>avail_out := chunk_size\<rparr>) Z_FINISH = (ret, out, t')
           \<and> avail_in t = 0 \<and> avail_in t' = 0 \<and> state t = state t'
           \<and> avail_out t = avail_out t'"
      by (rule z_call_no_input) (use a in simp_all)
    then obtain ret out t t' where
      c1: "z_call (z_deflate Z) (strm\<lparr>avail_out := chunk_size\<rparr>) Z_FINISH = (ret, out, t)"
      and c2: "z_call (z_deflate Z) (s'\<lparr>avail_out := chunk_size\<rparr>) Z_FINISH = (ret, out, t')"
      and rel: "avail_in t = 0" "avail_in t' = 0" "state t = state t'"
      and ao: "avail_out t = avail_out t'"
      by blast
    have unfold': "deflate_loop Z s' compressed =
        (if ret = Z_STREAM_ERROR then Some (Inl compression_failed)
         else if avail_out t' = 0 then deflate_loop Z t' (compressed @ out)
         else if ret \<noteq> Z_STREAM_END then Some (Inl compression_failed)
         else Some (Inr (compressed @ out)))"
      by (rule trans[OF deflate_loop.simps]) (simp only: c2 prod.case)
    have body: "(if ret = Z_STREAM_ERROR then Some (Inl compression_failed)
         else if avail_out t = 0 then dl Z t (compressed @ out)
         else if ret \<noteq> Z_STREAM_END then Some (Inl compression_failed)
         else Some (Inr (compressed @ out))) = Some y"
      using step(2) by (simp only: c1 prod.case)
    show "deflate_loop Z s' compressed = Some y"
    proof (cases "ret \<noteq> Z_STREAM_ERROR \<and> avail_out t = 0")
      case True
      then have "dl Z t (compressed @ out) = Some y" using body by simp
      from step(1)[OF this] rel
      have "deflate_loop Z t' (compressed @ out) = Some y" by blast
      moreover have "avail_out t' = 0" using True ao by simp
      ultimately show ?thesis using True by (simp only: unfold' simp_thms if_True if_False)
    next
      case False
      show ?thesis
      proof (cases "ret = Z_STREAM_ERROR")
        case True
        then have "Some (Inl compression_failed) = Some y"
          using body by (simp only: if_True simp_thms)
        then show ?thesis using True by (simp only: unfold' if_True simp_thms)
      next
        case ne: False
        then have nz: "avail_out t \<noteq> 0" using False by simp
        then have nz': "avail_out t' \<noteq> 0" using ao by simp
        have "(if ret \<noteq> Z_STREAM_END then Some (Inl compression_failed)
               else Some (Inr (compressed @ out))) = Some y"
          using body ne nz by (simp only: if_False simp_thms)
        then show ?thesis using ne nz' by (simp only: unfold' if_False simp_thms)
      qed
    qed
  qed
qed

lemma deflate_loop_no_input:
  assumes "avail_in s = 0" "avail_in s' = 0" "state s = state s'"
  shows "deflate_loop Z s acc = deflate_loop Z s' acc"
proof (cases "deflate_loop Z s acc")
  case None
  show ?thesis
  proof (cases "deflate_loop Z s' acc")
    case None
    then show ?thesis using \<open>deflate_loop Z s acc = None\<close> by simp
  next
    case (Some y)
    from deflate_loop_no_input_aux[OF this] assms have "deflate_loop Z s acc = Some y" by auto
    then show ?thesis using None by simp
  qed
next
  case (Some y)
  from deflate_loop_no_input_aux[OF this] assms show ?thesis using Some by auto
qed

lemma compress_four_gib: "compress Z four_gib deflate = compress Z [] deflate"
proof -
  have "(of_nat (length four_gib) :: 32 word) = 0"
    by (simp add: four_gib_def)
  then show ?thesis
    by (auto simp: compress_def deflate_compress_def deflate_def none_def split: prod.splits
             intro!: deflate_loop_no_input)
qed

text \<open>The size argument of \<open>decompress\<close> decides whether it returns, not what.\<close>

lemma decompress_size_irrelevant:
  "decompress H Z c m n = Some r \<Longrightarrow> decompress H Z c m n' = Some r' \<Longrightarrow> r = r'"
  by (auto simp: decompress_def deflate_decompress_def split: if_splits prod.splits option.splits)

text \<open>
  Claim C2 fails for Deflate at an input of \<open>2 ^ 32\<close> bytes, whatever zlib does:
  \<^verbatim>\<open>stream.avail_in = static_cast<uInt>(data.size())\<close> truncates the length to 0, so
  \<open>compress\<close> returns for these 4 GiB what it returns for the empty input, and
  \<open>decompress\<close> cannot give back both. The round trip cannot hold at the empty input
  and at this one.
\<close>
theorem deflate_roundtrip_lost_at_four_gib: "\<not> (roundtrip H Z four_gib deflate \<and> roundtrip H Z [] deflate)"
proof
  assume a: "roundtrip H Z four_gib deflate \<and> roundtrip H Z [] deflate"
  then obtain c where c: "compress Z [] deflate = Some (Inr c)"
    by (auto simp: roundtrip_def split: option.splits sum.splits)
  from a c have "decompress H Z c deflate (length four_gib) = Some (Inr four_gib)"
    by (simp add: roundtrip_def compress_four_gib)
  moreover from a c have "decompress H Z c deflate (length ([] :: bytes)) = Some (Inr [])"
    by (simp add: roundtrip_def)
  ultimately have "(Inr four_gib :: compression_error + bytes) = Inr []"
    by (rule decompress_size_irrelevant)
  then show False by (simp add: four_gib_def)
qed

lemma roundtrip_none: "roundtrip H Z b none"
  by (simp add: roundtrip_def compress_def decompress_def)

section \<open>The definitions on concrete inputs\<close>

subsection \<open>Opening entries of the mounted archives\<close>

lemma heap_64k_serves: "n \<le> 65536 \<Longrightarrow> vector_alloc heap_64k n = None"
  by (simp add: vector_alloc_def heap_64k_def)

lemma open_fixtures:
  "fs_open src_fs ''assets/hello.txt'' = Some (regular_file [0x68, 0x69])"
  "fs_open src_fs ''assets'' = Some (- 1, [])"
  "fs_open pak_fs ''a1.pak'' = Some (regular_file pak_a1)"
  "fs_open pak_fs ''a2.pak'' = Some (regular_file pak_a2)"
  "fs_open pak_fs ''bad.pak'' = Some (regular_file pak_bad)"
  "fs_open pak_fs ''z.pak'' = Some (regular_file pak_z)"
  "fs_open pak_fs ''short.pak'' = Some (regular_file pak_short)"
  "fs_open pak_fs ''missing.pak'' = None"
  by (simp_all add: src_fs_def pak_fs_def)

lemma length_pak_of [simp]: "length (pak_of [x, y] c u m) = 65"
  by (simp add: pak_of_def)

lemma read_hello: "read_source heap_64k src_fs ''assets/hello.txt'' = Some (Inr [0x68, 0x69])"
  by (rule read_source_regular[OF open_fixtures(1)]) (simp add: heap_64k_serves)

lemma read_whole_fixtures:
  "read_whole heap_64k pak_fs ''a1.pak'' = Inr pak_a1"
  "read_whole heap_64k pak_fs ''bad.pak'' = Inr pak_bad"
  "read_whole heap_64k pak_fs ''z.pak'' = Inr pak_z"
  by (rule read_whole_regular[OF open_fixtures(3)], simp add: heap_64k_serves pak_a1_def)
     (rule read_whole_regular[OF open_fixtures(5)], simp add: heap_64k_serves pak_bad_def,
      rule read_whole_regular[OF open_fixtures(6)], simp add: heap_64k_serves pak_z_def)

lemma contains_fixtures:
  "archive_contains arch_a1 ''common.txt''"
  "archive_contains arch_a2 ''common.txt''"
  "archive_contains arch_bad ''common.txt''"
  by (simp_all add: archive_contains_def arch_a1_def arch_a2_def arch_bad_def)

lemma open_arch_a1:
  "archive_open heap_64k Z arch_a1 ''common.txt'' = Some (Inr (vfstream_ctor [0x68, 0x69]), arch_a1)"
  by (simp add: archive_open_def arch_a1_def common_entry_def read_file_data_def heap_64k_serves mem_read_def
        pak_a1_def pak_of_def none_def)

lemma open_arch_a2:
  "archive_open heap_64k Z arch_a2 ''common.txt'' =
     Some (Inr (vfstream_ctor [0x42, 0x32]),
           arch_a2_read)"
proof -
  have sk: "ifstream_seekg \<lparr>if_open = True, if_content = pak_a2, if_pos = 65, if_fail = False\<rparr> 24
          = \<lparr>if_open = True, if_content = pak_a2, if_pos = 24, if_fail = False\<rparr>"
    using ifstream_seekg_good[of 24 pak_a2 65] by simp
  have rd: "ifstream_read \<lparr>if_open = True, if_content = pak_a2, if_pos = 24, if_fail = False\<rparr> 2 (zero_bytes 2)
          = ([0x42, 0x32], 2, \<lparr>if_open = True, if_content = pak_a2, if_pos = 26, if_fail = False\<rparr>)"
    using ifstream_read_good[of 24 2 pak_a2] by (simp add: pak_a2_def) (simp add: pak_of_def)
  show ?thesis
    by (simp add: archive_open_def arch_a2_def arch_a2_read_def common_entry_def read_file_data_def heap_64k_serves sk rd none_def)
qed

lemma open_arch_bad:
  "archive_open heap_64k Z arch_bad ''common.txt'' = Some (Inl read_error, arch_bad)"
  by (simp add: archive_open_def arch_bad_def common_entry_def read_file_data_def heap_64k_serves pak_bad_def)




lemma open_arch_a2_read:
  "archive_open heap_64k Z arch_a2_read ''common.txt'' = Some (Inr (vfstream_ctor [0x42, 0x32]), arch_a2_read)"
proof -
  have sk: "ifstream_seekg \<lparr>if_open = True, if_content = pak_a2, if_pos = 26, if_fail = False\<rparr> 24
          = \<lparr>if_open = True, if_content = pak_a2, if_pos = 24, if_fail = False\<rparr>"
    using ifstream_seekg_good[of 24 pak_a2 26] by simp
  have rd: "ifstream_read \<lparr>if_open = True, if_content = pak_a2, if_pos = 24, if_fail = False\<rparr> 2 (zero_bytes 2)
          = ([0x42, 0x32], 2, \<lparr>if_open = True, if_content = pak_a2, if_pos = 26, if_fail = False\<rparr>)"
    using ifstream_read_good[of 24 2 pak_a2] by (simp add: pak_a2_def) (simp add: pak_of_def)
  show ?thesis
    by (simp add: archive_open_def arch_a2_def arch_a2_read_def common_entry_def read_file_data_def heap_64k_serves
          sk rd none_def)
qed

lemma open_two_reverse:
  "vfs_open heap_64k no_zlib (vfs_two reverse_mount_order True) ''common.txt''
     = Some (Inr (vfstream_ctor [0x42, 0x32]), vfs_two_opened)"
  by (simp add: vfs_open_def search_list_def vfs_two_def vfs_two_opened_def contains_fixtures
        open_arch_a2 read_all_ctor)


text \<open>Counterexample for C3 as stated: the archive of highest precedence contains the name
  and fails to open it (its entry reaches past the end of the file), and \<open>vfs_open\<close>
  returns the stream of the archive of lower precedence, not an error.\<close>

theorem vfs_open_reader_failure_counterexample:
  "search_list vfs_bad = [arch_bad, arch_a1]
   \<and> archive_contains arch_bad ''common.txt''
   \<and> archive_open heap_64k no_zlib arch_bad ''common.txt'' = Some (Inl read_error, arch_bad)
   \<and> vfs_open heap_64k no_zlib vfs_bad ''common.txt''
       = Some (Inr (vfstream_ctor [0x68, 0x69]),
               vfs_bad\<lparr>cache := fmupd ''common.txt'' [0x68, 0x69] fmempty\<rparr>)"
  by (simp add: vfs_open_def search_list_def vfs_bad_def contains_fixtures open_arch_bad
        open_arch_a1 read_all_ctor)

text \<open>Witness for the amended C3: the same VFS, and a VFS whose only archive fails.\<close>

theorem vfs_open_falls_through_witness:
  "search_list vfs_bad = [] @ arch_bad # [arch_a1]
   \<and> archive_contains arch_bad ''common.txt''
   \<and> archive_open heap_64k no_zlib arch_bad ''common.txt'' = Some (Inl read_error, arch_bad)
   \<and> map_option fst (vfs_open heap_64k no_zlib vfs_bad ''common.txt'')
       = map_option fst (vfs_open heap_64k no_zlib (vfs_bad\<lparr>archives := [arch_a1]\<rparr>) ''common.txt'')
   \<and> map_option fst (vfs_open heap_64k no_zlib (vfs_bad\<lparr>archives := [arch_a1]\<rparr>) ''common.txt'')
       = Some (Inr (vfstream_ctor [0x68, 0x69]))
   \<and> map_option fst (vfs_open heap_64k no_zlib (vfs_bad\<lparr>archives := [arch_bad]\<rparr>) ''common.txt'')
       = map_option fst (vfs_open heap_64k no_zlib (vfs_bad\<lparr>archives := []\<rparr>) ''common.txt'')
   \<and> map_option fst (vfs_open heap_64k no_zlib (vfs_bad\<lparr>archives := []\<rparr>) ''common.txt'')
       = Some (Inl vfs_file_not_found)"
proof -
  have sl: "search_list vfs_bad = [] @ arch_bad # [arch_a1]"
    by (simp add: search_list_def vfs_bad_def)
  have sl1: "search_list (vfs_bad\<lparr>archives := [arch_bad]\<rparr>) = [] @ arch_bad # []"
    by (simp add: search_list_def vfs_bad_def)
  have miss: "\<not> cache_enabled vfs_bad \<or> fmlookup (cache vfs_bad) ''common.txt'' = None"
    by (simp add: vfs_bad_def)
  have miss1: "\<not> cache_enabled (vfs_bad\<lparr>archives := [arch_bad]\<rparr>)
       \<or> fmlookup (cache (vfs_bad\<lparr>archives := [arch_bad]\<rparr>)) ''common.txt'' = None"
    by (simp add: vfs_bad_def)
  have 1: "map_option fst (vfs_open heap_64k no_zlib vfs_bad ''common.txt'')
       = map_option fst (vfs_open heap_64k no_zlib (vfs_bad\<lparr>archives := [arch_a1]\<rparr>) ''common.txt'')"
    using vfs_open_falls_through[OF sl _ contains_fixtures(3) open_arch_bad miss]
    by (simp add: vfs_bad_def)
  have 2: "map_option fst (vfs_open heap_64k no_zlib (vfs_bad\<lparr>archives := [arch_bad]\<rparr>) ''common.txt'')
       = map_option fst (vfs_open heap_64k no_zlib (vfs_bad\<lparr>archives := []\<rparr>) ''common.txt'')"
    using vfs_open_falls_through[OF sl1 _ contains_fixtures(3) open_arch_bad miss1]
    by (simp add: vfs_bad_def)
  have 3: "map_option fst (vfs_open heap_64k no_zlib (vfs_bad\<lparr>archives := [arch_a1]\<rparr>) ''common.txt'')
       = Some (Inr (vfstream_ctor [0x68, 0x69]))"
    by (simp add: vfs_open_def search_list_def vfs_bad_def contains_fixtures open_arch_a1 read_all_ctor)
  have 4: "map_option fst (vfs_open heap_64k no_zlib (vfs_bad\<lparr>archives := []\<rparr>) ''common.txt'')
       = Some (Inl vfs_file_not_found)"
    by (simp add: vfs_open_def search_list_def vfs_bad_def)
  show ?thesis
    by (intro conjI; (rule sl contains_fixtures(3) open_arch_bad 1 2 3 4))
qed

text \<open>Counterexample for C7 as stated: after an open under \<open>reverse_mount_order\<close> and a
  \<open>set_search_order\<close> to \<open>mount_order\<close>, the cache entry holds the bytes of the second
  archive while a fresh open with an empty cache produces those of the first.\<close>

theorem cache_entry_stale_counterexample:
  "vfs_open heap_64k no_zlib (vfs_two reverse_mount_order True) ''common.txt''
     = Some (Inr (vfstream_ctor [0x42, 0x32]), vfs_two_opened)
   \<and> fmlookup (cache (set_search_order vfs_two_opened mount_order)) ''common.txt''
       = Some [0x42, 0x32]
   \<and> map_option fst
        (vfs_open heap_64k no_zlib (clear_cache (set_search_order vfs_two_opened mount_order)) ''common.txt'')
       = Some (Inr (vfstream_ctor [0x68, 0x69]))"
  by (simp add: open_two_reverse)
     (simp add: vfs_open_def search_list_def vfs_two_opened_def set_search_order_def clear_cache_def
        contains_fixtures open_arch_a1 read_all_ctor)

text \<open>Witness for the amended C7.\<close>

theorem vfs_open_fills_cache_witness:
  "cache_enabled (vfs_two reverse_mount_order True)
   \<and> fmlookup (cache (vfs_two reverse_mount_order True)) ''common.txt'' = None
   \<and> vfs_open heap_64k no_zlib (vfs_two reverse_mount_order True) ''common.txt''
       = Some (Inr (vfstream_ctor [0x42, 0x32]), vfs_two_opened)
   \<and> cache_size (vfs_two reverse_mount_order True) < cache_size vfs_two_opened
   \<and> fmlookup (cache vfs_two_opened) ''common.txt'' = Some [0x42, 0x32]
   \<and> vfs_open heap_64k no_zlib vfs_two_opened ''common.txt''
       = Some (Inr (vfstream_ctor [0x42, 0x32]), vfs_two_opened)"
proof -
  have on: "cache_enabled (vfs_two reverse_mount_order True)"
    and first: "fmlookup (cache (vfs_two reverse_mount_order True)) ''common.txt'' = None"
    by (simp_all add: vfs_two_def)
  have d: "data (vfstream_ctor [0x42, 0x32]) = [0x42, 0x32]" by (simp add: vfstream_ctor_def)
  from vfs_open_fills_cache[OF on first open_two_reverse]
  show ?thesis using on first open_two_reverse by (simp add: d)
qed

subsection \<open>Building and mounting\<close>

lemma encode_le_8:
  "encode_le 8 v = [of_nat v, of_nat (v div 256), of_nat (v div 256 div 256),
     of_nat (v div 256 div 256 div 256), of_nat (v div 256 div 256 div 256 div 256),
     of_nat (v div 256 div 256 div 256 div 256 div 256),
     of_nat (v div 256 div 256 div 256 div 256 div 256 div 256),
     of_nat (v div 256 div 256 div 256 div 256 div 256 div 256 div 256)]"
proof -
  have e: "(8::nat) = Suc (Suc (Suc (Suc (Suc (Suc (Suc (Suc 0)))))))" by simp
  have m: "\<And>x. (of_nat (x mod 256) :: 8 word) = of_nat x"
    by (simp add: word_eq_iff_unsigned[where ?'a = nat] unat_of_nat flip: take_bit_eq_mod)
  show ?thesis unfolding e by (simp add: m)
qed

lemmas le_bytes = u32_bytes_def u64_bytes_def object_bytes_def encode_le_4 encode_le_8

lemma hello_files:
  "files hello_builder =
     [\<lparr>source_path = ''assets/hello.txt'', archive_path = ''common.txt'', file_compression = none\<rparr>]"
  by (simp add: hello_builder_def add_file_def archive_builder_ctor_def)

lemma hello_header0:
  "header_bytes little_endian
     \<lparr>magic = MAGIC_NUMBER, version = FORMAT_VERSION, directory_offset = 0,
      directory_count = of_nat (length (files hello_builder)), reserved = 0\<rparr>
   = [0x46, 0x4B, 0x41, 0x50, 1, 0, 0, 0, 0, 0, 0, 0, 0, 0, 0, 0, 1, 0, 0, 0, 0, 0, 0, 0]"
  by (simp add: header_bytes_def le_bytes MAGIC_NUMBER_def FORMAT_VERSION_def hello_files)

lemma hello_header:
  "header_bytes little_endian
     \<lparr>magic = MAGIC_NUMBER, version = FORMAT_VERSION, directory_offset = 26,
      directory_count = of_nat (length (files hello_builder)), reserved = 0\<rparr>
   = [0x46, 0x4B, 0x41, 0x50, 1, 0, 0, 0, 26, 0, 0, 0, 0, 0, 0, 0, 1, 0, 0, 0, 0, 0, 0, 0]"
  by (simp add: header_bytes_def le_bytes MAGIC_NUMBER_def FORMAT_VERSION_def hello_files)

lemma hello_write_files:
  "write_files heap_64k no_zlib src_fs (files hello_builder)
     \<lparr>of_content = [0x46, 0x4B, 0x41, 0x50, 1, 0, 0, 0, 0, 0, 0, 0, 0, 0, 0, 0, 1, 0, 0, 0, 0, 0, 0, 0],
      of_pos = 24, of_fail = False\<rparr> [] 24
   = Some (Inr ([common_entry 2 0 none], 26),
           \<lparr>of_content = [0x46, 0x4B, 0x41, 0x50, 1, 0, 0, 0, 0, 0, 0, 0, 0, 0, 0, 0, 1, 0, 0, 0,
                           0, 0, 0, 0, 0x68, 0x69],
            of_pos = 26, of_fail = False\<rparr>)"
  by (simp add: hello_files read_hello) (simp add: src_fs_def ofstream_write_def common_entry_def)

lemma hello_entry_bytes:
  "entry_bytes little_endian (common_entry 2 0 none) =
     [[10, 0, 0, 0], [0x63, 0x6F, 0x6D, 0x6D, 0x6F, 0x6E, 0x2E, 0x74, 0x78, 0x74],
      [24, 0, 0, 0, 0, 0, 0, 0], [2, 0, 0, 0, 0, 0, 0, 0], [0, 0, 0, 0, 0, 0, 0, 0], [0]]"
  by (simp add: entry_bytes_def common_entry_def le_bytes byte_of_char_def none_def)

lemma hello_write_directory:
  "write_directory little_endian src_fs [common_entry 2 0 none]
     \<lparr>of_content = [0x46, 0x4B, 0x41, 0x50, 1, 0, 0, 0, 0, 0, 0, 0, 0, 0, 0, 0, 1, 0, 0, 0,
                     0, 0, 0, 0, 0x68, 0x69],
      of_pos = 26, of_fail = False\<rparr>
   = (Inr (),
      \<lparr>of_content = [0x46, 0x4B, 0x41, 0x50, 1, 0, 0, 0, 0, 0, 0, 0, 0, 0, 0, 0, 1, 0, 0, 0,
                      0, 0, 0, 0, 0x68, 0x69,
                      10, 0, 0, 0, 0x63, 0x6F, 0x6D, 0x6D, 0x6F, 0x6E, 0x2E, 0x74, 0x78, 0x74,
                      24, 0, 0, 0, 0, 0, 0, 0, 2, 0, 0, 0, 0, 0, 0, 0, 0, 0, 0, 0, 0, 0, 0, 0, 0],
       of_pos = 65, of_fail = False\<rparr>)"
  by (simp add: hello_entry_bytes ofstream_write_def src_fs_def)

lemma build_hello:
  "build little_endian heap_64k no_zlib src_fs hello_builder ''a1.pak''
   = Some (Inr (\<lparr>magic = MAGIC_NUMBER, version = FORMAT_VERSION, directory_offset = 26,
                 directory_count = 1, reserved = 0\<rparr>, [common_entry 2 0 none]),
           \<lparr>of_content = pak_a1, of_pos = 24, of_fail = False\<rparr>)"
proof -
  have o: "ofstream_open src_fs ''a1.pak'' = \<lparr>of_content = [], of_pos = 0, of_fail = False\<rparr>"
    by (simp add: ofstream_open_def src_fs_def)
  have w0: "ofstream_write src_fs \<lparr>of_content = [], of_pos = 0, of_fail = False\<rparr>
        [0x46, 0x4B, 0x41, 0x50, 1, 0, 0, 0, 0, 0, 0, 0, 0, 0, 0, 0, 1, 0, 0, 0, 0, 0, 0, 0]
      = \<lparr>of_content = [0x46, 0x4B, 0x41, 0x50, 1, 0, 0, 0, 0, 0, 0, 0, 0, 0, 0, 0, 1, 0, 0, 0, 0, 0, 0, 0],
         of_pos = 24, of_fail = False\<rparr>"
    by (simp add: ofstream_write_def src_fs_def)
  have n: "(of_nat (length (files hello_builder)) :: 32 word) = 1"
    by (simp add: hello_files)
  have w1: "ofstream_write src_fs
       (ofstream_seekp \<lparr>of_content = [0x46, 0x4B, 0x41, 0x50, 1, 0, 0, 0, 0, 0, 0, 0, 0, 0, 0, 0, 1, 0, 0, 0,
                      0, 0, 0, 0, 0x68, 0x69,
                      10, 0, 0, 0, 0x63, 0x6F, 0x6D, 0x6D, 0x6F, 0x6E, 0x2E, 0x74, 0x78, 0x74,
                      24, 0, 0, 0, 0, 0, 0, 0, 2, 0, 0, 0, 0, 0, 0, 0, 0, 0, 0, 0, 0, 0, 0, 0, 0],
       of_pos = 65, of_fail = False\<rparr> 0)
       [0x46, 0x4B, 0x41, 0x50, 1, 0, 0, 0, 26, 0, 0, 0, 0, 0, 0, 0, 1, 0, 0, 0, 0, 0, 0, 0]
      = \<lparr>of_content = pak_a1, of_pos = 24, of_fail = False\<rparr>"
    by (simp add: ofstream_write_def ofstream_seekp_def src_fs_def pak_a1_def pak_of_def)
  show ?thesis
    unfolding build_def o Let_def
    apply (simp add: hello_header0 w0 hello_write_files del: write_directory.simps)
    apply (simp add: hello_write_directory ofstream_tellp_def hello_header w1
             del: write_directory.simps)
    apply (simp add: hello_files)
    done
qed


lemmas le_values = u32_of_def u64_of_def object_value_def

lemma common_name:
  "map char_of_byte [0x63, 0x6F, 0x6D, 0x6D, 0x6F, 0x6E, 0x2E, 0x74, 0x78, 0x74] = ''common.txt''"
proof -
  have "[0x63, 0x6F, 0x6D, 0x6D, 0x6F, 0x6E, 0x2E, 0x74, 0x78, 0x74] = map byte_of_char ''common.txt''"
    by (simp add: byte_of_char_def)
  then show ?thesis by (simp only: name_roundtrip)
qed

lemmas common_name' = common_name[unfolded list.map]

lemma header_pak_of:
  "header_of little_endian (take 24 (pak_of [x, y] c u m)) =
     \<lparr>magic = MAGIC_NUMBER, version = FORMAT_VERSION, directory_offset = 26,
      directory_count = 1, reserved = 0\<rparr>"
  by (simp add: pak_of_def header_of_def le_values MAGIC_NUMBER_def FORMAT_VERSION_def)

lemma memory_entry_pak_of:
  "memory_entry little_endian (pak_of [x, y] c u m) 26 = Some (Inr (common_entry (ucast c) (ucast u) m, 65))"
  by (simp add: memory_entry_def mem_read_def pak_of_def le_values Let_def common_entry_def
        common_name common_name' none_def)

lemma ctor_arch_a1: "archive_ctor little_endian heap_64k pak_fs ''a1.pak'' memory = Some (Inr arch_a1)"
  by (simp add: archive_ctor_def read_whole_fixtures load_directory_def read_header_def pak_a1_def
        header_pak_of memory_entry_pak_of arch_a1_def insert_entry_def common_entry_def none_def)

lemma ctor_arch_bad: "archive_ctor little_endian heap_64k pak_fs ''bad.pak'' memory = Some (Inr arch_bad)"
  by (simp add: archive_ctor_def read_whole_fixtures load_directory_def read_header_def pak_bad_def
        header_pak_of memory_entry_pak_of arch_bad_def insert_entry_def common_entry_def none_def)

lemma ctor_arch_z: "archive_ctor little_endian heap_64k pak_fs ''z.pak'' memory = Some (Inr arch_z)"
  by (simp add: archive_ctor_def read_whole_fixtures load_directory_def read_header_def pak_z_def
        header_pak_of memory_entry_pak_of arch_z_def insert_entry_def common_entry_def deflate_def)


lemma ctor_arch_a2: "archive_ctor little_endian heap_64k pak_fs ''a2.pak'' disk = Some (Inr arch_a2)"
proof -
  let ?S = "\<lambda>q. \<lparr>if_open = True, if_content = pak_a2, if_pos = q, if_fail = False\<rparr>"
  have op: "ifstream_open pak_fs ''a2.pak'' = ?S 0"
    by (simp add: ifstream_open_def open_fixtures regular_file_def)
  have sk0: "ifstream_seekg (?S 0) 0 = ?S 0"
    using ifstream_seekg_good[of 0 pak_a2 0] by simp
  have rd0: "ifstream_read (?S 0) 24 (zero_bytes 24) = (take 24 pak_a2, 24, ?S 24)"
    using ifstream_read_good[of 0 24 pak_a2] by (simp add: pak_a2_def)
  have sk: "ifstream_seekg (?S 24) 26 = ?S 26"
    using ifstream_seekg_good[of 26 pak_a2 24] by simp
  have r1: "ifstream_read (?S 26) 4 (zero_bytes 4) = ([10, 0, 0, 0], 4, ?S 30)"
    using ifstream_read_good[of 26 4 pak_a2] by (simp add: pak_a2_def) (simp add: pak_of_def)
  have r2: "ifstream_read (?S 30) 10 (zero_bytes 10)
      = ([0x63, 0x6F, 0x6D, 0x6D, 0x6F, 0x6E, 0x2E, 0x74, 0x78, 0x74], 10, ?S 40)"
    using ifstream_read_good[of 30 10 pak_a2] by (simp add: pak_a2_def) (simp add: pak_of_def)
  have r3: "ifstream_read (?S 40) 8 (zero_bytes 8) = ([24, 0, 0, 0, 0, 0, 0, 0], 8, ?S 48)"
    using ifstream_read_good[of 40 8 pak_a2] by (simp add: pak_a2_def) (simp add: pak_of_def)
  have r4: "ifstream_read (?S 48) 8 (zero_bytes 8) = ([2, 0, 0, 0, 0, 0, 0, 0], 8, ?S 56)"
    using ifstream_read_good[of 48 8 pak_a2] by (simp add: pak_a2_def) (simp add: pak_of_def)
  have r5: "ifstream_read (?S 56) 8 (zero_bytes 8) = ([0, 0, 0, 0, 0, 0, 0, 0], 8, ?S 64)"
    using ifstream_read_good[of 56 8 pak_a2] by (simp add: pak_a2_def) (simp add: pak_of_def)
  have r6: "ifstream_read (?S 64) 1 (zero_bytes 1) = ([0], 1, ?S 65)"
    using ifstream_read_good[of 64 1 pak_a2] by (simp add: pak_a2_def) (simp add: pak_of_def)
  have r6': "ifstream_read (?S 64) (Suc 0) (zero_bytes (Suc 0)) = ([0], Suc 0, ?S 65)"
    using r6 by simp
  have l: "u32_of little_endian [10, 0, 0, 0] = 10" by (simp add: le_values)
  have de: "disk_entry little_endian (?S 24) 26 = (common_entry 2 0 none, 10, ?S 65)"
    unfolding disk_entry_def sk
    by (simp add: r1 l r2 r3 r4 r5 r6' common_name common_name' Let_def)
       (simp add: le_values common_entry_def none_def)
  have hd: "read_header little_endian
       \<lparr>file_path = ''a2.pak'', mode = disk, file_stream = ?S 0, memory_data = [], directory = fmempty\<rparr>
     = Inr (\<lparr>magic = MAGIC_NUMBER, version = FORMAT_VERSION, directory_offset = 26,
             directory_count = 1, reserved = 0\<rparr>,
            \<lparr>file_path = ''a2.pak'', mode = disk, file_stream = ?S 24, memory_data = [],
             directory = fmempty\<rparr>)"
    by (simp add: read_header_def sk0 rd0) (simp add: pak_a2_def header_pak_of)
  show ?thesis
    unfolding archive_ctor_def load_directory_def
    by (simp add: op hd de insert_entry_def common_entry_def arch_a2_def)
qed

lemma ctor_missing:
  "archive_ctor little_endian heap_64k pak_fs ''missing.pak'' disk = Some (Inl runtime_error)"
  by (simp add: archive_ctor_def load_directory_def read_header_def ifstream_open_def pak_fs_def
        ifstream_closed_def)

lemma mount_fixtures:
  "mount little_endian heap_64k pak_fs (set_search_order vfs_ctor mount_order) ''a1.pak'' memory
     = Some (Inr (), (set_search_order vfs_ctor mount_order)\<lparr>archives := [arch_a1]\<rparr>)"
  "mount little_endian heap_64k pak_fs ((set_search_order vfs_ctor mount_order)\<lparr>archives := [arch_a1]\<rparr>)
       ''a2.pak'' disk
     = Some (Inr (), vfs_two mount_order True)"
  "mount little_endian heap_64k pak_fs (vfs_ctor\<lparr>archives := [arch_a1]\<rparr>) ''bad.pak'' memory
     = Some (Inr (), vfs_bad)"
  "mount little_endian heap_64k pak_fs vfs_ctor ''missing.pak'' disk = Some (Inl vfs_archive_error, vfs_ctor)"
  by (simp_all add: mount_def ctor_arch_a1 ctor_arch_a2 ctor_arch_bad ctor_missing vfs_ctor_def
        set_search_order_def vfs_two_def vfs_bad_def)







subsection \<open>A compressed entry\<close>

text \<open>
  The same file added to a builder whose default is Deflate, with \<open>copy_zlib\<close> for zlib:
  the entry is written with both sizes and method 1, and opening it runs
  \<open>decompress\<close>.
\<close>

lemma compress_copy_hi: "compress copy_zlib [0x68, 0x69] deflate = Some (Inr [0x68, 0x69])"
proof -
  have c: "z_call (z_deflate copy_zlib)
             \<lparr>next_in = [0x68, 0x69], avail_in = 2, avail_out = chunk_size, state = ()\<rparr>
             Z_FINISH
           = (Z_STREAM_END, [0x68, 0x69],
              \<lparr>next_in = [], avail_in = 0, avail_out = 16382, state = ()\<rparr>)"
    by (simp add: z_call_def copy_zlib_def chunk_size_def Let_def)
  have "deflate_loop copy_zlib \<lparr>next_in = [0x68, 0x69], avail_in = 2, avail_out = 0, state = ()\<rparr> []
      = Some (Inr [0x68, 0x69])"
    by (rule trans[OF deflate_loop.simps]) (simp add: c Z_STREAM_END_def Z_STREAM_ERROR_def)
  then show ?thesis
    by (simp add: compress_def deflate_compress_def copy_zlib_def deflate_def none_def Z_OK_def)
qed

lemma decompress_copy_hi: "decompress heap_64k copy_zlib [0x68, 0x69] deflate 2 = Some (Inr [0x68, 0x69])"
proof -
  have c: "z_call (z_inflate copy_zlib)
             \<lparr>next_in = [0x68, 0x69], avail_in = 2, avail_out = chunk_size, state = ()\<rparr>
             Z_NO_FLUSH
           = (Z_STREAM_END, [0x68, 0x69],
              \<lparr>next_in = [], avail_in = 0, avail_out = 16382, state = ()\<rparr>)"
    by (simp add: z_call_def copy_zlib_def chunk_size_def Let_def)
  have "inflate_loop copy_zlib \<lparr>next_in = [0x68, 0x69], avail_in = 2, avail_out = 0, state = ()\<rparr> []
      = Some (Inr [0x68, 0x69])"
    by (rule trans[OF inflate_loop.simps])
       (simp add: c Z_STREAM_END_def Z_STREAM_ERROR_def Z_DATA_ERROR_def Z_MEM_ERROR_def)
  then show ?thesis
    by (simp add: decompress_def deflate_decompress_def copy_zlib_def deflate_def none_def Z_OK_def
          heap_64k_serves)
qed

lemma deflate_files:
  "files deflate_builder =
     [\<lparr>source_path = ''assets/hello.txt'', archive_path = ''common.txt'', file_compression = deflate\<rparr>]"
  by (simp add: deflate_builder_def add_file_def archive_builder_ctor_def none_def deflate_def)

lemma deflate_write_files:
  "write_files heap_64k copy_zlib src_fs (files deflate_builder)
     \<lparr>of_content = [0x46, 0x4B, 0x41, 0x50, 1, 0, 0, 0, 0, 0, 0, 0, 0, 0, 0, 0, 1, 0, 0, 0, 0, 0, 0, 0],
      of_pos = 24, of_fail = False\<rparr> [] 24
   = Some (Inr ([common_entry 2 2 deflate], 26),
           \<lparr>of_content = [0x46, 0x4B, 0x41, 0x50, 1, 0, 0, 0, 0, 0, 0, 0, 0, 0, 0, 0, 1, 0, 0, 0,
                           0, 0, 0, 0, 0x68, 0x69],
            of_pos = 26, of_fail = False\<rparr>)"
proof -
  have d: "deflate \<noteq> none" by (simp add: deflate_def none_def)
  show ?thesis
    by (simp add: deflate_files read_hello d compress_copy_hi)
       (simp add: src_fs_def ofstream_write_def common_entry_def)
qed

lemma deflate_entry_bytes:
  "entry_bytes little_endian (common_entry 2 2 deflate) =
     [[10, 0, 0, 0], [0x63, 0x6F, 0x6D, 0x6D, 0x6F, 0x6E, 0x2E, 0x74, 0x78, 0x74],
      [24, 0, 0, 0, 0, 0, 0, 0], [2, 0, 0, 0, 0, 0, 0, 0], [2, 0, 0, 0, 0, 0, 0, 0], [1]]"
  by (simp add: entry_bytes_def common_entry_def le_bytes byte_of_char_def deflate_def)

lemma deflate_write_directory:
  "write_directory little_endian src_fs [common_entry 2 2 deflate]
     \<lparr>of_content = [0x46, 0x4B, 0x41, 0x50, 1, 0, 0, 0, 0, 0, 0, 0, 0, 0, 0, 0, 1, 0, 0, 0,
                     0, 0, 0, 0, 0x68, 0x69],
      of_pos = 26, of_fail = False\<rparr>
   = (Inr (),
      \<lparr>of_content = [0x46, 0x4B, 0x41, 0x50, 1, 0, 0, 0, 0, 0, 0, 0, 0, 0, 0, 0, 1, 0, 0, 0,
                      0, 0, 0, 0, 0x68, 0x69,
                      10, 0, 0, 0, 0x63, 0x6F, 0x6D, 0x6D, 0x6F, 0x6E, 0x2E, 0x74, 0x78, 0x74,
                      24, 0, 0, 0, 0, 0, 0, 0, 2, 0, 0, 0, 0, 0, 0, 0, 2, 0, 0, 0, 0, 0, 0, 0, 1],
       of_pos = 65, of_fail = False\<rparr>)"
  by (simp add: deflate_entry_bytes ofstream_write_def src_fs_def)

lemma build_deflate:
  "build little_endian heap_64k copy_zlib src_fs deflate_builder ''z.pak''
   = Some (Inr (\<lparr>magic = MAGIC_NUMBER, version = FORMAT_VERSION, directory_offset = 26,
                 directory_count = 1, reserved = 0\<rparr>, [common_entry 2 2 deflate]),
           \<lparr>of_content = pak_z, of_pos = 24, of_fail = False\<rparr>)"
proof -
  have o: "ofstream_open src_fs ''z.pak'' = \<lparr>of_content = [], of_pos = 0, of_fail = False\<rparr>"
    by (simp add: ofstream_open_def src_fs_def)
  have w0: "ofstream_write src_fs \<lparr>of_content = [], of_pos = 0, of_fail = False\<rparr>
        [0x46, 0x4B, 0x41, 0x50, 1, 0, 0, 0, 0, 0, 0, 0, 0, 0, 0, 0, 1, 0, 0, 0, 0, 0, 0, 0]
      = \<lparr>of_content = [0x46, 0x4B, 0x41, 0x50, 1, 0, 0, 0, 0, 0, 0, 0, 0, 0, 0, 0, 1, 0, 0, 0, 0, 0, 0, 0],
         of_pos = 24, of_fail = False\<rparr>"
    by (simp add: ofstream_write_def src_fs_def)
  have n: "length (files deflate_builder) = length (files hello_builder)"
    by (simp add: deflate_files hello_files)
  have w1: "ofstream_write src_fs
       (ofstream_seekp \<lparr>of_content = [0x46, 0x4B, 0x41, 0x50, 1, 0, 0, 0, 0, 0, 0, 0, 0, 0, 0, 0, 1, 0, 0, 0,
                      0, 0, 0, 0, 0x68, 0x69,
                      10, 0, 0, 0, 0x63, 0x6F, 0x6D, 0x6D, 0x6F, 0x6E, 0x2E, 0x74, 0x78, 0x74,
                      24, 0, 0, 0, 0, 0, 0, 0, 2, 0, 0, 0, 0, 0, 0, 0, 2, 0, 0, 0, 0, 0, 0, 0, 1],
       of_pos = 65, of_fail = False\<rparr> 0)
       [0x46, 0x4B, 0x41, 0x50, 1, 0, 0, 0, 26, 0, 0, 0, 0, 0, 0, 0, 1, 0, 0, 0, 0, 0, 0, 0]
      = \<lparr>of_content = pak_z, of_pos = 24, of_fail = False\<rparr>"
    by (simp add: ofstream_write_def ofstream_seekp_def src_fs_def pak_z_def pak_of_def)
  show ?thesis
    unfolding build_def o Let_def n
    apply (simp add: hello_header0 w0 deflate_write_files del: write_directory.simps)
    apply (simp add: deflate_write_directory ofstream_tellp_def hello_header w1
             del: write_directory.simps)
    apply (simp add: hello_files)
    done
qed

lemma open_arch_z:
  "archive_open heap_64k copy_zlib arch_z ''common.txt'' = Some (Inr (vfstream_ctor [0x68, 0x69]), arch_z)"
  by (simp add: archive_open_def arch_z_def common_entry_def read_file_data_def heap_64k_serves
        pak_z_def pak_of_def mem_read_def deflate_def none_def
        decompress_copy_hi[unfolded deflate_def])

lemma deflate_end_to_end:
  "build little_endian heap_64k copy_zlib src_fs deflate_builder ''z.pak''
     = Some (Inr (\<lparr>magic = MAGIC_NUMBER, version = FORMAT_VERSION, directory_offset = 26,
                   directory_count = 1, reserved = 0\<rparr>, [common_entry 2 2 deflate]),
             \<lparr>of_content = pak_z, of_pos = 24, of_fail = False\<rparr>)
   \<and> fs_open pak_fs ''z.pak'' = Some (regular_file pak_z)
   \<and> archive_ctor little_endian heap_64k pak_fs ''z.pak'' memory = Some (Inr arch_z)
   \<and> archive_open heap_64k copy_zlib arch_z ''common.txt''
       = Some (Inr (vfstream_ctor [0x68, 0x69]), arch_z)"
  by (simp add: build_deflate ctor_arch_z open_arch_z open_fixtures)


text \<open>Counterexample for C4 as stated: on a little-endian host the container \<open>build\<close>
  writes begins with \<^verbatim>\<open>46 4B 41 50\<close>.\<close>

theorem build_magic_counterexample:
  "build little_endian heap_64k no_zlib src_fs hello_builder ''a1.pak''
     = Some (Inr (\<lparr>magic = MAGIC_NUMBER, version = FORMAT_VERSION, directory_offset = 26,
                   directory_count = 1, reserved = 0\<rparr>, [common_entry 2 0 none]),
             \<lparr>of_content = pak_a1, of_pos = 24, of_fail = False\<rparr>)
   \<and> take 4 pak_a1 = [0x46, 0x4B, 0x41, 0x50]
   \<and> take 4 pak_a1 \<noteq> [0x50, 0x41, 0x4B, 0x46]"
  by (simp add: build_hello) (simp add: pak_a1_def pak_of_def)

text \<open>Witness for the amended C4.\<close>

theorem build_magic_host_order_witness:
  "build little_endian heap_64k no_zlib src_fs hello_builder ''a1.pak''
     = Some (Inr (\<lparr>magic = MAGIC_NUMBER, version = FORMAT_VERSION, directory_offset = 26,
                   directory_count = 1, reserved = 0\<rparr>, [common_entry 2 0 none]),
             \<lparr>of_content = pak_a1, of_pos = 24, of_fail = False\<rparr>)
   \<and> take 4 pak_a1 = u32_bytes little_endian MAGIC_NUMBER
   \<and> take 4 pak_a1 = [0x46, 0x4B, 0x41, 0x50]"
  using build_magic_host_order[OF build_hello] build_hello by (simp add: magic_bytes)

text \<open>Witness for C6: the uncompressed build and the compressed one.\<close>

theorem build_entries_before_directory_witness:
  "build little_endian heap_64k no_zlib src_fs hello_builder ''a1.pak''
     = Some (Inr (\<lparr>magic = MAGIC_NUMBER, version = FORMAT_VERSION, directory_offset = 26,
                   directory_count = 1, reserved = 0\<rparr>, [common_entry 2 0 none]),
             \<lparr>of_content = pak_a1, of_pos = 24, of_fail = False\<rparr>)
   \<and> header_of little_endian (take 24 pak_a1)
       = \<lparr>magic = MAGIC_NUMBER, version = FORMAT_VERSION, directory_offset = 26,
          directory_count = 1, reserved = 0\<rparr>
   \<and> unat (data_offset (common_entry 2 0 none)) + unat (compressed_size (common_entry 2 0 none)) \<le> 26
   \<and> build little_endian heap_64k copy_zlib src_fs deflate_builder ''z.pak''
       = Some (Inr (\<lparr>magic = MAGIC_NUMBER, version = FORMAT_VERSION, directory_offset = 26,
                     directory_count = 1, reserved = 0\<rparr>, [common_entry 2 2 deflate]),
               \<lparr>of_content = pak_z, of_pos = 24, of_fail = False\<rparr>)
   \<and> header_of little_endian (take 24 pak_z)
       = \<lparr>magic = MAGIC_NUMBER, version = FORMAT_VERSION, directory_offset = 26,
          directory_count = 1, reserved = 0\<rparr>
   \<and> unat (data_offset (common_entry 2 2 deflate))
       + unat (compressed_size (common_entry 2 2 deflate)) \<le> 26"
  using build_entries_before_directory[OF build_hello] build_entries_before_directory[OF build_deflate]
    build_hello build_deflate
  by simp

text \<open>Witness for C5: the directory of \<open>pak_mal\<close>, with a length field of 0 and one of
  4096 between two well-formed entries.\<close>

theorem load_directory_skips_malformed_witness:
  "load_directory little_endian
     \<lparr>file_path = ''mal.pak'', mode = memory, file_stream = ifstream_closed,
      memory_data = pak_mal, directory = fmempty\<rparr>
   = Some (Inr \<lparr>file_path = ''mal.pak'', mode = memory, file_stream = ifstream_closed,
                memory_data = pak_mal,
                directory = mal_directory\<rparr>)
   \<and> (\<exists>q. load_directory little_endian
            \<lparr>file_path = ''mal.pak'', mode = disk,
             file_stream = \<lparr>if_open = True, if_content = pak_mal, if_pos = 0, if_fail = False\<rparr>,
             memory_data = [], directory = fmempty\<rparr>
          = Some (Inr \<lparr>file_path = ''mal.pak'', mode = disk,
                       file_stream = \<lparr>if_open = True, if_content = pak_mal, if_pos = q,
                                      if_fail = False\<rparr>,
                       memory_data = [],
                       directory = mal_directory\<rparr>))"
proof -
  let ?pre = "header_bytes little_endian
       \<lparr>magic = MAGIC_NUMBER, version = FORMAT_VERSION, directory_offset = 24,
        directory_count = 4, reserved = 0\<rparr>"
  have layout: "pak_mal = ?pre @ concat (map (raw_entry_bytes little_endian) mal_entries) @ []"
    by (simp add: pak_mal_def)
  have header: "header_of little_endian (take 24 pak_mal) =
      \<lparr>magic = MAGIC_NUMBER, version = FORMAT_VERSION, directory_offset = of_nat (length ?pre),
       directory_count = of_nat (length mal_entries), reserved = 0\<rparr>"
    using header_roundtrip[of little_endian _ "[]"]
    by (simp add: pak_mal_def mal_entries_def)
  have framed: "\<forall>(len, e) \<in> set mal_entries. length (filename e) = unat len"
    by (simp add: mal_entries_def)
  have len: "length pak_mal = 4238"
    by (simp add: pak_mal_def mal_entries_def length_raw_entry_bytes)
  have kept: "kept_entries mal_entries fmempty =
      mal_directory"
    by (simp add: mal_entries_def mal_directory_def)
  have n: "length mal_entries = 4"
    by (simp add: mal_entries_def)
  from load_directory_skips_malformed[OF layout header framed, of "''mal.pak''" fmempty 0]
  show ?thesis by (simp add: len kept n)
qed

subsection \<open>Exceptions that leave the API\<close>

text \<open>
  With a heap that serves nothing, opening an entry of two bytes does not return
  (\<^verbatim>\<open>std::bad_alloc\<close> from \<open>read_file_data\<close>). A source path that names a directory
  opens and has the end position \<open>- 1\<close>: the vector \<open>build\<close> sizes by it cannot be made
  (\<^verbatim>\<open>std::length_error\<close>), whatever the heap.
\<close>

lemma open_heap_exhausted:
  "archive_open (\<lambda>n. False) Z arch_a1 ''common.txt'' = None"
  by (simp add: archive_open_def arch_a1_def common_entry_def read_file_data_def vector_alloc_def)

lemma read_directory_source: "read_source H src_fs ''assets'' = None"
  by (simp add: read_source_def open_fixtures size_t_of_def vector_alloc_def)

lemma build_directory_source:
  "build little_endian H Z src_fs (add_file (archive_builder_ctor none) ''assets'' ''a'' none) ''out.pak''
     = None"
proof -
  have o: "ofstream_open src_fs ''out.pak'' = \<lparr>of_content = [], of_pos = 0, of_fail = False\<rparr>"
    by (simp add: ofstream_open_def src_fs_def)
  have w: "\<not> of_fail (ofstream_write src_fs \<lparr>of_content = [], of_pos = 0, of_fail = False\<rparr>
              (header_bytes little_endian h))" for h
    by (simp add: ofstream_write_def src_fs_def)
  show ?thesis
    unfolding build_def o Let_def
    by (simp add: w add_file_def archive_builder_ctor_def read_directory_source)
qed

subsection \<open>The builder and the cache switch\<close>

lemma long_name_status:
  "fs_type src_fs long_name = ft_not_found" "fs_status_fails src_fs long_name"
proof -
  have len: "length long_name = 300" by (simp add: long_name_def)
  have ne: "long_name \<noteq> s" if "length s < 300" for s
    using that len by auto
  show "fs_type src_fs long_name = ft_not_found" by (simp add: src_fs_def ne)
  show "fs_status_fails src_fs long_name" by (simp add: src_fs_def len)
qed

text \<open>
  Counterexample for C9 as stated: no file has the name \<open>long_name\<close>, and
  \<open>add_directory\<close> does not return for it: the status query fails and
  \<^verbatim>\<open>std::filesystem::exists\<close> throws.
\<close>

theorem add_directory_throws_counterexample:
  "fs_type src_fs long_name = ft_not_found
   \<and> fs_exists src_fs long_name = None
   \<and> fst (add_directory src_fs hello_builder long_name ''data'' none) = Inl filesystem_error"
  by (simp add: add_directory_def fs_exists_def long_name_status)

text \<open>Witness for the amended C9: a path that does not exist, a path that is a regular
  file, and one for which the status query fails.\<close>

theorem add_directory_missing_is_noop_witness:
  "fs_type src_fs ''nowhere'' = ft_not_found
   \<and> add_directory src_fs hello_builder ''nowhere'' ''data'' deflate = (Inr (), hello_builder)
   \<and> fs_type src_fs ''assets/hello.txt'' = ft_regular
   \<and> add_directory src_fs hello_builder ''assets/hello.txt'' ''data'' none = (Inr (), hello_builder)
   \<and> file_count (snd (add_directory src_fs hello_builder ''assets/hello.txt'' ''data'' none))
       = file_count hello_builder
   \<and> fs_type src_fs long_name = ft_not_found
   \<and> add_directory src_fs hello_builder long_name ''data'' none
       = (Inl filesystem_error, hello_builder)"
  using add_directory_missing_is_noop[of src_fs "''nowhere''" hello_builder "''data''" deflate]
    add_directory_missing_is_noop[of src_fs "''assets/hello.txt''" hello_builder "''data''" none]
    add_directory_missing_is_noop[of src_fs long_name hello_builder "''data''" none]
  by (simp add: long_name_status) (simp add: src_fs_def)

text \<open>Counterexample for C8 as stated: a builder constructed with default \<open>deflate\<close> records
  an uncompressed entry once \<open>set_default_compression\<close> has set the default to \<open>none\<close>.\<close>

theorem uncompressed_after_set_default_counterexample:
  "default_compression (archive_builder_ctor deflate) \<noteq> none
   \<and> files (add_file (set_default_compression (archive_builder_ctor deflate) none)
               ''assets/hello.txt'' ''hello.txt'' none)
       = [\<lparr>source_path = ''assets/hello.txt'', archive_path = ''hello.txt'', file_compression = none\<rparr>]"
  by (simp add: archive_builder_ctor_def set_default_compression_def add_file_def deflate_def none_def)

lemma walked_hello: "walked_archive_path ''data'' ''hello.txt'' = ''data/hello.txt''"
  by (simp add: walked_archive_path_def)

lemma walked_sub: "walked_archive_path ''data'' ''sub/n.bin'' = ''data/sub/n.bin''"
  by (simp add: walked_archive_path_def)

text \<open>Witness for the amended C8: a builder with default \<open>deflate\<close>, one file and one
  directory walk.\<close>

theorem sentinel_none_is_current_default_witness:
  "files (add_file (archive_builder_ctor deflate) ''assets/hello.txt'' ''hello.txt'' none)
     = [\<lparr>source_path = ''assets/hello.txt'', archive_path = ''hello.txt'', file_compression = deflate\<rparr>]
   \<and> files (snd (add_directory src_fs (archive_builder_ctor deflate) ''assets'' ''data'' none))
     = [\<lparr>source_path = ''assets/hello.txt'', archive_path = ''data/hello.txt'',
         file_compression = deflate\<rparr>,
        \<lparr>source_path = ''assets/sub/n.bin'', archive_path = ''data/sub/n.bin'',
         file_compression = deflate\<rparr>]
   \<and> (\<exists>new. files (snd (add_directory src_fs (archive_builder_ctor deflate) ''assets'' ''data'' none))
              = files (archive_builder_ctor deflate) @ new
            \<and> list_all (\<lambda>e. file_compression e = deflate) new)"
proof -
  have d: "default_compression (archive_builder_ctor deflate) = deflate"
    by (simp add: archive_builder_ctor_def)
  have w: "files (snd (add_directory src_fs (archive_builder_ctor deflate) ''assets'' ''data'' none))
     = [\<lparr>source_path = ''assets/hello.txt'', archive_path = ''data/hello.txt'',
         file_compression = deflate\<rparr>,
        \<lparr>source_path = ''assets/sub/n.bin'', archive_path = ''data/sub/n.bin'',
         file_compression = deflate\<rparr>]"
    by (simp add: add_directory_def fs_exists_def fs_is_directory_def src_fs_def
          archive_builder_ctor_def add_file_def walked_hello walked_sub deflate_def none_def)
  have f0: "files (archive_builder_ctor deflate) = []"
    by (simp add: archive_builder_ctor_def)
  from sentinel_none_is_current_default[of "archive_builder_ctor deflate" "''assets/hello.txt''"
      "''hello.txt''" none src_fs "''assets''" "''data''"]
  show ?thesis unfolding d f0 by (simp add: w list_all_iff)
qed

text \<open>Witness for C10: a VFS with one cached entry.\<close>

theorem enable_cache_false_keeps_entries_witness:
  "cache_size (enable_cache (vfs_two reverse_mount_order True\<lparr>cache := fmupd ''common.txt'' [1, 2] fmempty\<rparr>) False) = 1
   \<and> vfs_open heap_64k no_zlib (enable_cache (enable_cache (vfs_two reverse_mount_order True\<lparr>cache := fmupd ''common.txt'' [1, 2] fmempty\<rparr>) False) True) ''common.txt''
       = Some (Inr (vfstream_ctor [1, 2]), vfs_two reverse_mount_order True\<lparr>cache := fmupd ''common.txt'' [1, 2] fmempty\<rparr>)
   \<and> vfs_contains (enable_cache (enable_cache (vfs_two reverse_mount_order True\<lparr>cache := fmupd ''common.txt'' [1, 2] fmempty\<rparr>) False) True) ''common.txt''"
  using enable_cache_false_keeps_entries[of "vfs_two reverse_mount_order True\<lparr>cache := fmupd ''common.txt'' [1, 2] fmempty\<rparr>" heap_64k no_zlib]
  by (simp add: cache_size_def vfs_two_def enable_cache_def fcard_finsert_if)

end
